theory Spec2Isabelle
  imports Main
begin

section \<open>Python values used by the synchronisation engine\<close>

text \<open>
  A Python \<^verbatim>\<open>str\<close> is a sequence of Unicode code points, so a string is a list of
  natural numbers here (\<open>length\<close> counts code points, as Python's \<^verbatim>\<open>len\<close> does).
  \<open>U\<close> writes an ASCII literal as such a string.
\<close>

type_synonym ustr = "nat list"

definition U :: "string \<Rightarrow> ustr" where
  "U s = map of_char s"

text \<open>
  The code points for which \<^verbatim>\<open>str.isspace\<close> holds: \<^verbatim>\<open>str.strip()\<close> removes exactly
  these, and \<^verbatim>\<open>\s\<close> in a \<^verbatim>\<open>str\<close> pattern matches exactly these.
\<close>

definition isspace :: "nat \<Rightarrow> bool" where
  "isspace c = ((9 \<le> c \<and> c \<le> 13) \<or> (28 \<le> c \<and> c \<le> 32) \<or> c = 133 \<or> c = 160
      \<or> c = 5760 \<or> (8192 \<le> c \<and> c \<le> 8202) \<or> c = 8232 \<or> c = 8233 \<or> c = 8239
      \<or> c = 8287 \<or> c = 12288)"

definition strip :: "ustr \<Rightarrow> ustr" where
  "strip s = rev (dropWhile isspace (rev (dropWhile isspace s)))"

section \<open>NameSanitizer: \<^verbatim>\<open>clean_name\<close>\<close>

text \<open>
  \<^verbatim>\<open>name.replace("/", "--")\<close>: every slash becomes two dashes.
\<close>

definition replace_slash :: "ustr \<Rightarrow> ustr" where
  "replace_slash s = concat (map (\<lambda>c. if c = 47 then [45, 45] else [c]) s)"

text \<open>
  The character class \<^verbatim>\<open>[\\:*?"<>|]\<close> of the substitution: backslash, colon, star,
  question mark, double quote, less, greater, bar.
\<close>

definition disallowed :: "nat list" where
  "disallowed = [92, 58, 42, 63, 34, 60, 62, 124]"

definition remove_disallowed :: "ustr \<Rightarrow> ustr" where
  "remove_disallowed s = filter (\<lambda>c. c \<notin> set disallowed) s"

text \<open>
  \<^verbatim>\<open>re.sub(r'[\\:*?"<>|]', '', name.replace("/", "--")).strip()\<close>; the two modules
  define the same function.
\<close>

definition clean_name :: "ustr \<Rightarrow> ustr" where
  "clean_name name = strip (remove_disallowed (replace_slash name))"

text \<open>
  The contract of the sanitizer read character by character: a slash is folded into two
  dashes, one of the eight disallowed characters is dropped, every other character is
  kept. The sanitized name of the contract is the concatenation of these images, trimmed.
\<close>

definition folded_char :: "nat \<Rightarrow> ustr" where
  "folded_char c = (if c = 47 then [45, 45] else if c \<in> set disallowed then [] else [c])"

section \<open>Dynamic values, exceptions and dictionaries\<close>

text \<open>
  The values that occur in the listings handed over by the session: \<^verbatim>\<open>None\<close>, booleans,
  integers and strings. (Floats, lists and nested dictionaries do not occur in the fields
  the engine reads and are not modelled.)
\<close>

datatype pyval = PNone | PBool bool | PInt int | PStr ustr

text \<open>
  Every exception class the two drivers raise, catch or let escape. A computation that
  may raise has the result type \<open>exn + 'a\<close>, with \<open>Inl\<close> for the raised exception.
\<close>

datatype exn =
    KeyError | TypeError | ValueError | ReError
  | ParserError | LoginError | DownloadError | ExtractionError
  | MissingFeatureError | MissingPermissionFolderError
  | FileNotFoundError | SameFileError | OSError | ShutilError

text \<open>A dictionary with string keys; \<open>d k = None\<close> means the key is absent.\<close>

type_synonym dict = "string \<rightharpoonup> pyval"

definition getitem :: "dict \<Rightarrow> string \<Rightarrow> exn + pyval" where
  "getitem d k = (case d k of None \<Rightarrow> Inl KeyError | Some v \<Rightarrow> Inr v)"

text \<open>Truth value of an object, as \<^verbatim>\<open>not x\<close> and \<^verbatim>\<open>if x\<close> compute it.\<close>

fun truthy :: "pyval \<Rightarrow> bool" where
  "truthy PNone = False"
| "truthy (PBool b) = b"
| "truthy (PInt n) = (n \<noteq> 0)"
| "truthy (PStr s) = (s \<noteq> [])"

text \<open>
  The parts of the Python runtime that the engine calls and that depend on the Unicode
  database or on the regular-expression engine are parameters of the model:
  the decimal digits matched by \<^verbatim>\<open>\d\<close>, \<^verbatim>\<open>unicodedata.normalize("NFKC", s)\<close>,
  \<^verbatim>\<open>int(s)\<close> on a string (\<open>None\<close> when it raises \<^verbatim>\<open>ValueError\<close>), whether a
  pattern compiles, \<^verbatim>\<open>re.match(pattern, s)\<close> for the user-supplied ignore patterns, and
  \<^verbatim>\<open>fnmatch.fnmatch(name, pattern)\<close>, with which \<^verbatim>\<open>glob\<close> matches the names of a
  directory against a component of its pattern.
\<close>

record runtime =
  isdecimal :: "nat \<Rightarrow> bool"
  nfkc :: "ustr \<Rightarrow> ustr"
  int_of_str :: "ustr \<Rightarrow> int option"
  re_compiles :: "ustr \<Rightarrow> bool"
  re_matches :: "ustr \<Rightarrow> ustr \<Rightarrow> bool"
  fnmatch :: "ustr \<Rightarrow> ustr \<Rightarrow> bool"

text \<open>\<^verbatim>\<open>int(x)\<close>: a bool is an int; \<^verbatim>\<open>int(None)\<close> raises \<^verbatim>\<open>TypeError\<close>.\<close>

fun py_int :: "runtime \<Rightarrow> pyval \<Rightarrow> exn + int" where
  "py_int rt PNone = Inl TypeError"
| "py_int rt (PBool b) = Inr (if b then 1 else 0)"
| "py_int rt (PInt n) = Inr n"
| "py_int rt (PStr s) = (case int_of_str rt s of None \<Rightarrow> Inl ValueError | Some n \<Rightarrow> Inr n)"

text \<open>\<^verbatim>\<open>x > n\<close> for an integer \<open>n\<close>: ordering against \<^verbatim>\<open>None\<close> or a string raises.\<close>

fun py_gt_int :: "pyval \<Rightarrow> int \<Rightarrow> exn + bool" where
  "py_gt_int (PInt a) n = Inr (a > n)"
| "py_gt_int (PBool b) n = Inr ((if b then 1 else 0) > n)"
| "py_gt_int PNone n = Inl TypeError"
| "py_gt_int (PStr s) n = Inl TypeError"

text \<open>\<^verbatim>\<open>x == n\<close> for an integer \<open>n\<close>: never raises.\<close>

fun py_eq_int :: "pyval \<Rightarrow> int \<Rightarrow> bool" where
  "py_eq_int (PInt a) n = (a = n)"
| "py_eq_int (PBool b) n = ((if b then 1 else 0) = n)"
| "py_eq_int PNone n = False"
| "py_eq_int (PStr s) n = False"

section \<open>Listing cleanup: \<^verbatim>\<open>check_and_cleanup_form_data\<close>\<close>

text \<open>\<^verbatim>\<open>string.hexdigits\<close> is \<^verbatim>\<open>0123456789abcdefABCDEF\<close>.\<close>

definition hexdigits :: "nat list" where
  "hexdigits = U ''0123456789abcdefABCDEF''"

text \<open>
  \<^verbatim>\<open>all(c in string.hexdigits for c in form_id)\<close>: iterating over a value that is not a
  string raises \<^verbatim>\<open>TypeError\<close>.
\<close>

fun all_hexdigits :: "pyval \<Rightarrow> exn + bool" where
  "all_hexdigits (PStr s) = Inr (list_all (\<lambda>c. c \<in> set hexdigits) s)"
| "all_hexdigits v = Inl TypeError"

text \<open>
  The condition of the "unsupported file" branch:
  \<^verbatim>\<open>"size" not in form_data or form_data["size"] is None or ("storage" in form_data and
  form_data["storage"] == "url") or ("icon" in form_data and form_data["icon"] == "link-extern")\<close>.
\<close>

definition unsupported :: "dict \<Rightarrow> bool" where
  "unsupported fd = (fd ''size'' = None \<or> fd ''size'' = Some PNone
     \<or> fd ''storage'' = Some (PStr (U ''url''))
     \<or> fd ''icon'' = Some (PStr (U ''link-extern'')))"

text \<open>
  \<^verbatim>\<open>use_api and "is_downloadable" in form_data and not form_data["is_downloadable"]\<close>.
\<close>

definition not_downloadable :: "bool \<Rightarrow> dict \<Rightarrow> bool" where
  "not_downloadable use_api fd =
     (use_api \<and> (case fd ''is_downloadable'' of None \<Rightarrow> False | Some v \<Rightarrow> \<not> truthy v))"

text \<open>
  The three \<^verbatim>\<open>continue\<close> branches of the file loop first format a log line with
  \<^verbatim>\<open>form_data["name"]\<close>, which raises \<^verbatim>\<open>KeyError\<close> when the entry has no name.
\<close>

definition log_skip :: "dict \<Rightarrow> exn + dict option" where
  "log_skip fd = (case fd ''name'' of None \<Rightarrow> Inl KeyError | Some v \<Rightarrow> Inr None)"

text \<open>
  \<^verbatim>\<open>clean_name(unicodedata.normalize(UNICODE_NORMALIZE_MODE, form_data["name"]))\<close>:
  normalising a value that is not a string raises \<^verbatim>\<open>TypeError\<close>.
\<close>

definition cleaned_name :: "runtime \<Rightarrow> dict \<Rightarrow> exn + ustr" where
  "cleaned_name rt fd =
     (case fd ''name'' of
        None \<Rightarrow> Inl KeyError
      | Some (PStr s) \<Rightarrow> Inr (clean_name (nfkc rt s))
      | Some v \<Rightarrow> Inl TypeError)"

text \<open>
  The dictionary literal \<^verbatim>\<open>new_file_data\<close>, its fields evaluated in source order, and
  the \<^verbatim>\<open>download_url\<close> key that is added only when \<^verbatim>\<open>use_api\<close> is false.
\<close>

definition new_file_data :: "runtime \<Rightarrow> bool \<Rightarrow> dict \<Rightarrow> pyval \<Rightarrow> exn + dict" where
  "new_file_data rt use_api fd form_id =
     (case cleaned_name rt fd of Inl e \<Rightarrow> Inl e | Inr nm \<Rightarrow>
      (case getitem fd ''size'' of Inl e \<Rightarrow> Inl e | Inr sz \<Rightarrow>
      (case py_int rt sz of Inl e \<Rightarrow> Inl e | Inr size_int \<Rightarrow>
      (case getitem fd ''chdate'' of Inl e \<Rightarrow> Inl e | Inr cd \<Rightarrow>
      (case py_int rt cd of Inl e \<Rightarrow> Inl e | Inr chdate \<Rightarrow>
        (let d = [''name'' \<mapsto> PStr nm, ''id'' \<mapsto> form_id,
                  ''size'' \<mapsto> PInt size_int, ''chdate'' \<mapsto> PInt chdate]
         in if \<not> use_api
            then (case getitem fd ''download_url'' of
                    Inl e \<Rightarrow> Inl e
                  | Inr url \<Rightarrow> Inr (d(''download_url'' \<mapsto> url)))
            else Inr d))))))"

text \<open>
  The body of the \<^verbatim>\<open>try\<close> block for one file entry: \<open>Inr None\<close> is \<^verbatim>\<open>continue\<close>,
  \<open>Inr (Some d)\<close> appends \<open>d\<close>, \<open>Inl e\<close> is the exception raised inside the block.
\<close>

definition cleanup_file :: "runtime \<Rightarrow> bool \<Rightarrow> dict \<Rightarrow> exn + dict option" where
  "cleanup_file rt use_api fd =
     (case fd ''id'' of
        None \<Rightarrow> log_skip fd
      | Some form_id \<Rightarrow>
         (case all_hexdigits form_id of
            Inl e \<Rightarrow> Inl e
          | Inr False \<Rightarrow> Inl ParserError
          | Inr True \<Rightarrow>
              if unsupported fd then log_skip fd
              else if not_downloadable use_api fd then log_skip fd
              else (case new_file_data rt use_api fd form_id of
                      Inl e \<Rightarrow> Inl e
                    | Inr d \<Rightarrow> Inr (Some d))))"

text \<open>
  The loop over the file entries. \<^verbatim>\<open>except Exception\<close> turns whatever the block raised
  into \<^verbatim>\<open>ParserError\<close>, which leaves the function.
\<close>

fun cleanup_files :: "runtime \<Rightarrow> bool \<Rightarrow> dict list \<Rightarrow> exn + dict list" where
  "cleanup_files rt use_api [] = Inr []"
| "cleanup_files rt use_api (fd # rest) =
     (case cleanup_file rt use_api fd of
        Inl e \<Rightarrow> Inl ParserError
      | Inr r \<Rightarrow>
         (case cleanup_files rt use_api rest of
            Inl e \<Rightarrow> Inl e
          | Inr out \<Rightarrow> Inr (case r of None \<Rightarrow> out | Some d \<Rightarrow> d # out)))"

text \<open>The body of the \<^verbatim>\<open>try\<close> block for one folder entry.\<close>

definition cleanup_folder :: "runtime \<Rightarrow> dict \<Rightarrow> exn + dict option" where
  "cleanup_folder rt fd =
     (case fd ''id'' of
        None \<Rightarrow> Inr None
      | Some form_id \<Rightarrow>
         (case all_hexdigits form_id of
            Inl e \<Rightarrow> Inl e
          | Inr False \<Rightarrow> Inl ValueError
          | Inr True \<Rightarrow>
             (case cleaned_name rt fd of
                Inl e \<Rightarrow> Inl e
              | Inr nm \<Rightarrow> Inr (Some [''name'' \<mapsto> PStr nm, ''id'' \<mapsto> form_id]))))"

fun cleanup_folders :: "runtime \<Rightarrow> dict list \<Rightarrow> exn + dict list" where
  "cleanup_folders rt [] = Inr []"
| "cleanup_folders rt (fd # rest) =
     (case cleanup_folder rt fd of
        Inl e \<Rightarrow> Inl ParserError
      | Inr r \<Rightarrow>
         (case cleanup_folders rt rest of
            Inl e \<Rightarrow> Inl e
          | Inr out \<Rightarrow> Inr (case r of None \<Rightarrow> out | Some d \<Rightarrow> d # out)))"

definition check_and_cleanup_form_data ::
  "runtime \<Rightarrow> dict list \<Rightarrow> dict list \<Rightarrow> bool \<Rightarrow> exn + (dict list \<times> dict list)" where
  "check_and_cleanup_form_data rt form_data_files form_data_folders use_api =
     (case cleanup_files rt use_api form_data_files of
        Inl e \<Rightarrow> Inl e
      | Inr files_new \<Rightarrow>
         (case cleanup_folders rt form_data_folders of
            Inl e \<Rightarrow> Inl e
          | Inr folders_new \<Rightarrow> Inr (files_new, folders_new)))"

section \<open>ChangeDetector: \<^verbatim>\<open>is_file_new\<close>\<close>

text \<open>
  The destination tree as strategy A sees it: a path names a regular file with its bytes
  and its modification time in whole seconds (\<^verbatim>\<open>int(os.path.getmtime(p))\<close>), or nothing.
  Directories are not entries of this map: \<^verbatim>\<open>os.makedirs\<close> leaves it unchanged.
\<close>

record lfile =
  fdata :: "nat list"
  mtime :: int

type_synonym filesys = "ustr \<rightharpoonup> lfile"

definition is_file_new :: "filesys \<Rightarrow> dict \<Rightarrow> ustr \<Rightarrow> exn + bool" where
  "is_file_new fs file file_path =
     (case getitem file ''size'' of Inl e \<Rightarrow> Inl e | Inr file_size_field \<Rightarrow>
        if \<not> truthy file_size_field then Inr False
        else (case fs file_path of
                None \<Rightarrow> Inr True
              | Some f \<Rightarrow>
                 (let file_time = mtime f in
                  case getitem file ''chdate'' of Inl e \<Rightarrow> Inl e | Inr chdate \<Rightarrow>
                  (case py_gt_int chdate file_time of
                     Inl e \<Rightarrow> Inl e
                   | Inr True \<Rightarrow> Inr True
                   | Inr False \<Rightarrow>
                      (let file_size = int (length (fdata f)) in
                       if \<not> py_eq_int file_size_field file_size then Inr True else Inr False)))))"

text \<open>
  A runtime for evaluating the model on ASCII input: the decimal digits are \<^verbatim>\<open>0\<close> to
  \<^verbatim>\<open>9\<close>, NFKC leaves an ASCII string as it is, \<^verbatim>\<open>int\<close> reads an optional sign and a
  non-empty run of digits between optional whitespace, and a pattern made of letters,
  digits and spaces compiles and matches the strings it is a prefix of; a name matches
  such a pattern of \<^verbatim>\<open>fnmatch\<close> when it is equal to it. On other input it is not
  Python's behaviour, and no theorem below is stated for it other than at such input.
\<close>

definition ascii_digit :: "nat \<Rightarrow> bool" where
  "ascii_digit c = (48 \<le> c \<and> c \<le> 57)"

fun digits_value :: "int \<Rightarrow> ustr \<Rightarrow> int" where
  "digits_value acc [] = acc"
| "digits_value acc (c # cs) = digits_value (acc * 10 + int (c - 48)) cs"

definition ascii_unsigned :: "ustr \<Rightarrow> int option" where
  "ascii_unsigned s = (if s \<noteq> [] \<and> list_all ascii_digit s then Some (digits_value 0 s) else None)"

definition ascii_int :: "ustr \<Rightarrow> int option" where
  "ascii_int s =
     (case strip s of
        [] \<Rightarrow> None
      | c # cs \<Rightarrow>
          if c = 45 then map_option uminus (ascii_unsigned cs)
          else if c = 43 then ascii_unsigned cs
          else ascii_unsigned (c # cs))"

definition literal_char :: "nat \<Rightarrow> bool" where
  "literal_char c = (ascii_digit c \<or> (65 \<le> c \<and> c \<le> 90) \<or> (97 \<le> c \<and> c \<le> 122) \<or> c = 32)"

definition ascii_rt :: runtime where
  "ascii_rt = \<lparr> isdecimal = ascii_digit, nfkc = (\<lambda>s. s), int_of_str = ascii_int,
                 re_compiles = list_all literal_char,
                 re_matches = (\<lambda>p s. take (length p) s = p),
                 fnmatch = (\<lambda>n p. list_all literal_char p \<and> n = p) \<rparr>"

section \<open>Vocabulary for the listing-cleanup and change-detection properties\<close>

text \<open>An entry of the cleaned listing: a hexadecimal identifier, an integer size and an
  integer change time.\<close>

definition cleaned_entry :: "dict \<Rightarrow> bool" where
  "cleaned_entry d =
     ((case d ''id'' of Some (PStr s) \<Rightarrow> list_all (\<lambda>c. c \<in> set hexdigits) s | _ \<Rightarrow> False)
      \<and> (case d ''size'' of Some (PInt n) \<Rightarrow> True | _ \<Rightarrow> False)
      \<and> (case d ''chdate'' of Some (PInt n) \<Rightarrow> True | _ \<Rightarrow> False))"

text \<open>The field \<open>k\<close> is present and \<^verbatim>\<open>int\<close> rejects it.\<close>

definition malformed_int :: "runtime \<Rightarrow> dict \<Rightarrow> string \<Rightarrow> bool" where
  "malformed_int rt fd k = (case fd k of None \<Rightarrow> False | Some v \<Rightarrow> isl (py_int rt v))"

text \<open>The identifier is present and is not a string of hexadecimal digits.\<close>

definition bad_id :: "dict \<Rightarrow> bool" where
  "bad_id fd = (case fd ''id'' of None \<Rightarrow> False | Some v \<Rightarrow> all_hexdigits v \<noteq> Inr True)"

text \<open>
  A named entry that has no identifier, or that has a hexadecimal identifier and is an
  external link, lacks a size, or (API variant) is marked as not downloadable.
\<close>

definition skipped :: "bool \<Rightarrow> dict \<Rightarrow> bool" where
  "skipped use_api fd =
     (fd ''name'' \<noteq> None \<and>
      (fd ''id'' = None \<or> (\<not> bad_id fd \<and> (unsupported fd \<or> not_downloadable use_api fd))))"

text \<open>Sample entries: a regular file, and an external link whose size is not a number.\<close>

definition sample_file :: dict where
  "sample_file = [''id'' \<mapsto> PStr (U ''1f''), ''name'' \<mapsto> PStr (U ''a.pdf''),
                  ''size'' \<mapsto> PInt 3, ''chdate'' \<mapsto> PInt 7]"

definition sample_link :: dict where
  "sample_link = [''id'' \<mapsto> PStr (U ''2e''), ''name'' \<mapsto> PStr (U ''link''),
                  ''size'' \<mapsto> PStr (U ''abc''), ''chdate'' \<mapsto> PInt 7,
                  ''storage'' \<mapsto> PStr (U ''url'')]"

section \<open>NameSanitizer: \<^verbatim>\<open>short_course_name\<close>\<close>

text \<open>
  The regular expressions of the pattern, with Python's backtracking order: a character
  class, concatenation, the greedy star of a class, the greedy optional, and a numbered
  capture group. \<^verbatim>\<open>x+\<close> is \<^verbatim>\<open>xx*\<close> and \<^verbatim>\<open>x{1,2}\<close> is \<^verbatim>\<open>xx?\<close>.
\<close>

datatype rx =
    Eps
  | Cls "nat \<Rightarrow> bool"
  | Seq rx rx
  | Star "nat \<Rightarrow> bool"
  | Opt rx
  | Grp nat rx

type_synonym groups = "nat \<rightharpoonup> ustr"

text \<open>
  The greedy star takes as many characters of the class as there are and gives them back
  one at a time while the rest of the pattern (the continuation \<open>k\<close>) fails.
\<close>

fun star_match :: "(nat \<Rightarrow> bool) \<Rightarrow> (ustr \<Rightarrow> 'a option) \<Rightarrow> ustr \<Rightarrow> 'a option" where
  "star_match p k [] = k []"
| "star_match p k (c # s) =
     (if p c then (case star_match p k s of Some r \<Rightarrow> Some r | None \<Rightarrow> k (c # s))
      else k (c # s))"

text \<open>
  \<open>rx_match r k s g\<close> matches \<open>r\<close> at the start of \<open>s\<close> with the groups \<open>g\<close> captured
  so far and hands the rest of the string to \<open>k\<close>; the first alternative that makes
  \<open>k\<close> succeed is the match. A group records the text its body consumed.
\<close>

primrec rx_match :: "rx \<Rightarrow> (ustr \<Rightarrow> groups \<Rightarrow> groups option) \<Rightarrow> ustr \<Rightarrow> groups \<Rightarrow> groups option" where
  "rx_match Eps k s g = k s g"
| "rx_match (Cls p) k s g = (case s of [] \<Rightarrow> None | c # s' \<Rightarrow> if p c then k s' g else None)"
| "rx_match (Seq a b) k s g = rx_match a (rx_match b k) s g"
| "rx_match (Star p) k s g = star_match p (\<lambda>s'. k s' g) s"
| "rx_match (Opt a) k s g = (case rx_match a k s g of Some r \<Rightarrow> Some r | None \<Rightarrow> k s g)"
| "rx_match (Grp n a) k s g =
     rx_match a (\<lambda>s' g'. k s' (g'(n \<mapsto> take (length s - length s') s))) s g"

text \<open>\<^verbatim>\<open>pattern.match(s)\<close>: anchored at the start, any rest allowed.\<close>

definition re_match :: "rx \<Rightarrow> ustr \<Rightarrow> groups option" where
  "re_match r s = rx_match r (\<lambda>s' g. Some g) s Map.empty"

text \<open>\<^verbatim>\<open>match.group(n)\<close> inside an f-string: a group that did not take part prints as
  \<^verbatim>\<open>None\<close>.\<close>

definition group_text :: "groups \<Rightarrow> nat \<Rightarrow> ustr" where
  "group_text g n = (case g n of None \<Rightarrow> U ''None'' | Some t \<Rightarrow> t)"

text \<open>
  The classes of the pattern: \<^verbatim>\<open>[A-Z]\<close>; \<^verbatim>\<open>[A-Z]\<close> with the three capital umlauts
  (code points 196, 214, 220); \<^verbatim>\<open>[a-z]\<close> with the three small umlauts and the sharp s
  (228, 246, 252, 223); and the dot (anything but a newline).
\<close>

definition upper_az :: "nat \<Rightarrow> bool" where
  "upper_az c = (65 \<le> c \<and> c \<le> 90)"

definition upper_umlaut :: "nat \<Rightarrow> bool" where
  "upper_umlaut c = (upper_az c \<or> c = 196 \<or> c = 214 \<or> c = 220)"

definition lower_umlaut :: "nat \<Rightarrow> bool" where
  "lower_umlaut c = ((97 \<le> c \<and> c \<le> 122) \<or> c = 228 \<or> c = 246 \<or> c = 252 \<or> c = 223)"

definition any_char :: "nat \<Rightarrow> bool" where
  "any_char c = (c \<noteq> 10)"

definition plus :: "(nat \<Rightarrow> bool) \<Rightarrow> rx" where
  "plus p = Seq (Cls p) (Star p)"

text \<open>
  The pattern \<^verbatim>\<open>(\d+)\s([A-ZAOU])\S*\s(([A-Z]+[a-zaous]* ?){1,2})\D*(\d?).*\<close>, where
  \<^verbatim>\<open>AOU\<close> and \<^verbatim>\<open>aous\<close> stand for the umlauts and the sharp s of the source: group 1
  is the course number, group 2 the type letter, group 3 one or two name tokens (each of
  them group 4), group 5 the optional digit.
\<close>

definition name_token :: rx where
  "name_token = Grp 4 (Seq (plus upper_az) (Seq (Star lower_umlaut) (Opt (Cls (\<lambda>c. c = 32)))))"

definition course_pattern :: "runtime \<Rightarrow> rx" where
  "course_pattern rt =
     Seq (Grp 1 (plus (isdecimal rt)))
    (Seq (Cls isspace)
    (Seq (Grp 2 (Cls upper_umlaut))
    (Seq (Star (\<lambda>c. \<not> isspace c))
    (Seq (Cls isspace)
    (Seq (Grp 3 (Seq name_token (Opt name_token)))
    (Seq (Star (\<lambda>c. \<not> isdecimal rt c))
    (Seq (Grp 5 (Opt (Cls (isdecimal rt))))
         (Star any_char))))))))"

text \<open>
  \<^verbatim>\<open>f"{match.group(1)} {match.group(2)} {match.group(3)}{match.group(5)}".strip()\<close>
\<close>

definition compact_name :: "groups \<Rightarrow> ustr" where
  "compact_name g =
     strip (group_text g 1 @ U '' '' @ group_text g 2 @ U '' '' @ group_text g 3 @ group_text g 5)"

text \<open>\<^verbatim>\<open>short_course_name\<close> of \<^verbatim>\<open>studip_rsync.py\<close> (strategy A).\<close>

definition short_course_name_rsync :: "runtime \<Rightarrow> ustr \<Rightarrow> ustr" where
  "short_course_name_rsync rt name =
     (case re_match (course_pattern rt) (clean_name name) of
        Some g \<Rightarrow> compact_name g
      | None \<Rightarrow> clean_name name)"

text \<open>\<^verbatim>\<open>short_course_name\<close> of \<^verbatim>\<open>studip_sync.py\<close> (strategy B): a string or
  \<^verbatim>\<open>False\<close>.\<close>

definition short_course_name_sync :: "runtime \<Rightarrow> ustr \<Rightarrow> pyval" where
  "short_course_name_sync rt name =
     (case re_match (course_pattern rt) (clean_name name) of
        Some g \<Rightarrow> PStr (compact_name g)
      | None \<Rightarrow> PBool False)"

section \<open>Paths and time stamps\<close>

text \<open>\<^verbatim>\<open>os.path.join(a, b)\<close> and \<^verbatim>\<open>os.path.split(p)\<close> of \<^verbatim>\<open>posixpath\<close>.\<close>

definition path_join :: "ustr \<Rightarrow> ustr \<Rightarrow> ustr" where
  "path_join a b =
     (if b \<noteq> [] \<and> hd b = 47 then b
      else if a = [] \<or> last a = 47 then a @ b
      else a @ [47] @ b)"

definition path_split :: "ustr \<Rightarrow> ustr \<times> ustr" where
  "path_split p =
     (let tail = rev (takeWhile (\<lambda>c. c \<noteq> 47) (rev p));
          head = take (length p - length tail) p
      in if head \<noteq> [] \<and> \<not> list_all (\<lambda>c. c = 47) head
         then (rev (dropWhile (\<lambda>c. c = 47) (rev head)), tail)
         else (head, tail))"

text \<open>
  One reading of the clock: the seconds since the epoch (\<^verbatim>\<open>int(time.time())\<close>, also
  the modification time a file written at this moment gets) and the fields of
  \<^verbatim>\<open>datetime.now()\<close>.
\<close>

record moment =
  epoch :: int
  year :: nat
  month :: nat
  day :: nat
  hour :: nat
  minute :: nat
  second :: nat

fun dec :: "nat \<Rightarrow> ustr" where
  "dec n = (if n < 10 then [48 + n] else dec (n div 10) @ [48 + n mod 10])"

declare dec.simps [simp del]

definition pad2 :: "nat \<Rightarrow> ustr" where
  "pad2 n = (if n < 10 then 48 # dec n else dec n)"

text \<open>\<^verbatim>\<open>datetime.strftime(now, "%Y-%m-%d_%H+%M+%S")\<close>, for a year of four digits.\<close>

definition strftime :: "moment \<Rightarrow> ustr" where
  "strftime t = dec (year t) @ U ''-'' @ pad2 (month t) @ U ''-'' @ pad2 (day t) @ U ''_''
       @ pad2 (hour t) @ U ''+'' @ pad2 (minute t) @ U ''+'' @ pad2 (second t)"

text \<open>\<^verbatim>\<open>suffix = "_" + timestr + ".old"\<close>, in both modules.\<close>

definition old_suffix :: "moment \<Rightarrow> ustr" where
  "old_suffix t = U ''_'' @ strftime t @ U ''.old''"

text \<open>The text after the last slash of a path.\<close>

definition last_component :: "ustr \<Rightarrow> ustr" where
  "last_component p = rev (takeWhile (\<lambda>c. c \<noteq> 47) (rev p))"

section \<open>Strategy A: placing a downloaded file (\<^verbatim>\<open>download_recursive\<close>, lines 325 to 338)\<close>

text \<open>
  A step that changes the file system ends normally or raises; in both cases the changes
  made so far stay.
\<close>

datatype 's eff = Done 's | Raised exn 's

text \<open>
  \<^verbatim>\<open>os.rename(src, dst)\<close> on POSIX: the source must exist; a file at the destination is
  replaced silently.
\<close>

definition os_rename :: "filesys \<Rightarrow> ustr \<Rightarrow> ustr \<Rightarrow> exn + filesys" where
  "os_rename fs src dst =
     (case fs src of
        None \<Rightarrow> Inl FileNotFoundError
      | Some f \<Rightarrow> Inr ((fs(src := None))(dst \<mapsto> f)))"

text \<open>
  \<^verbatim>\<open>shutil.copyfile(src, dst)\<close>: the destination gets the bytes of the source and the
  current time as its modification time.
\<close>

definition copyfile :: "filesys \<Rightarrow> ustr \<Rightarrow> ustr \<Rightarrow> moment \<Rightarrow> exn + filesys" where
  "copyfile fs src dst now =
     (case fs src of
        None \<Rightarrow> Inl FileNotFoundError
      | Some f \<Rightarrow>
          if src = dst then Inl SameFileError
          else Inr (fs(dst \<mapsto> \<lparr>fdata = fdata f, mtime = epoch now\<rparr>)))"

text \<open>The path the existing file is renamed to.\<close>

definition new_file_path :: "ustr \<Rightarrow> moment \<Rightarrow> ustr" where
  "new_file_path file_path now =
     (let (file_path_base, file_path_name) = path_split file_path
      in path_join file_path_base (file_path_name @ old_suffix now))"

text \<open>
  \<^verbatim>\<open>os.makedirs(d, exist_ok=True)\<close>: the empty path raises \<^verbatim>\<open>FileNotFoundError\<close>;
  otherwise the directory exists afterwards, which leaves the file map as it is.
\<close>

definition makedirs :: "filesys \<Rightarrow> ustr \<Rightarrow> exn + filesys" where
  "makedirs fs d = (if d = [] then Inl FileNotFoundError else Inr fs)"

text \<open>
  The placement: rename what exists aside or make the parent directories, fail when
  something is still there, then copy the downloaded file from the scratch directory to
  the destination. A path whose last component is empty (the name of the entry cleaned
  to the empty string, so that the path ends with a slash) names the directory that
  \<^verbatim>\<open>os.makedirs\<close> has just made: \<^verbatim>\<open>os.path.exists\<close> holds for it and the placement
  raises \<^verbatim>\<open>DownloadError\<close>. The file map knows regular files only, so a path is taken to
  exist when it is a key of the map or the directory just made.
\<close>

definition place :: "filesys \<Rightarrow> ustr \<Rightarrow> ustr \<Rightarrow> moment \<Rightarrow> filesys eff" where
  "place fs target_file file_path now =
     (let (file_path_base, file_path_name) = path_split file_path
      in case (if fs file_path \<noteq> None
               then os_rename fs file_path (new_file_path file_path now)
               else makedirs fs file_path_base) of
           Inl e \<Rightarrow> Raised e fs
         | Inr fs1 \<Rightarrow>
             if fs1 file_path \<noteq> None \<or> (fs file_path = None \<and> file_path_name = [])
             then Raised DownloadError fs1
             else (case copyfile fs1 target_file file_path now of
                     Inl e \<Rightarrow> Raised e fs1
                   | Inr fs2 \<Rightarrow> Done fs2))"

section \<open>Strategy A: \<^verbatim>\<open>CourseRSync\<close>\<close>

text \<open>A course as the session lists it.\<close>

record course =
  course_id :: ustr
  save_as :: ustr
  semester :: ustr
  semester_id :: ustr
  sync_only :: pyval

text \<open>
  A node of a directory tree (a file with its bytes, or a directory with its named
  entries), and what the archive download of strategy B delivers: a file that is not a
  zip container, or a container with the tree it extracts to.
\<close>

datatype tnode = TFile "nat list" | TDir "(ustr \<times> tnode) list"

datatype archive = BadZip | Zip "(ustr \<times> tnode) list"

text \<open>
  The session, as far as the engine calls it: the outcome of the login, the identifier of
  a named semester, the course list, the listing of a folder (browse-page or API
  variant), the bytes a download writes, the incremental check, the media download, the
  archive of a course, the exception (if any) that starting the external mirror program
  raises, and the clock (the \<open>n\<close>-th reading).
\<close>

record session =
  login_result :: "exn option"
  get_semester_id :: "ustr \<Rightarrow> ustr option"
  get_courses :: "bool \<Rightarrow> exn + course list"
  get_files_index :: "bool \<Rightarrow> ustr \<Rightarrow> pyval \<Rightarrow> exn + (dict list \<times> dict list)"
  download_file :: "bool \<Rightarrow> pyval \<Rightarrow> exn + nat list"
  check_course_new_files :: "ustr \<Rightarrow> int \<Rightarrow> exn + bool"
  download_media :: "ustr \<Rightarrow> exn option"
  download :: "ustr \<Rightarrow> pyval \<Rightarrow> exn + archive"
  mirror_result :: "exn option"
  clock :: "nat \<Rightarrow> moment"

text \<open>
  What a run of strategy A changes: the files, the number of clock readings, and the
  notifications sent to the plugins (remote name, course name, local path).
\<close>

record world =
  disk :: filesys
  ticks :: nat
  hooks :: "(ustr \<times> ustr \<times> ustr) list"

text \<open>The fields of a \<^verbatim>\<open>CourseRSync\<close> object.\<close>

record job =
  job_course_id :: ustr
  job_save_as :: ustr
  root_folder :: ustr
  workdir :: ustr
  use_api :: bool

text \<open>
  The body of the loop over the cleaned file entries. The clock is read once for a file
  that is downloaded: the reading stamps the scratch file, names the backup and stamps
  the placed file.
\<close>

definition file_step :: "runtime \<Rightarrow> session \<Rightarrow> job \<Rightarrow> ustr \<Rightarrow> dict \<Rightarrow> world \<Rightarrow> world eff" where
  "file_step rt sess j folder_path_relative file_data w =
     (case getitem file_data ''download_url'' of
        Inl e \<Rightarrow> Raised e w
      | Inr url \<Rightarrow>
         if url = PNone then Done w
         else
          (case file_data ''name'' of
             None \<Rightarrow> Raised KeyError w
           | Some (PStr nm) \<Rightarrow>
              (let folder_absolute = path_join (root_folder j) folder_path_relative;
                   file_path = path_join folder_absolute nm
               in case is_file_new (disk w) file_data file_path of
                    Inl e \<Rightarrow> Raised e w
                  | Inr False \<Rightarrow> Done w
                  | Inr True \<Rightarrow>
                     (case file_data ''id'' of
                        None \<Rightarrow> Raised KeyError w
                      | Some (PStr fid) \<Rightarrow>
                         (let target_file = path_join (workdir j) fid;
                              now = clock sess (ticks w)
                          in case (if \<not> use_api j then download_file sess False url
                                   else download_file sess True (PStr fid)) of
                               Inl e \<Rightarrow> Raised e w
                             | Inr bytes \<Rightarrow>
                                (let w1 = w\<lparr>disk := (disk w)(target_file \<mapsto>
                                                \<lparr>fdata = bytes, mtime = epoch now\<rparr>),
                                             ticks := Suc (ticks w)\<rparr>
                                 in case getitem file_data ''size'' of
                                      Inl e \<Rightarrow> Raised e w1
                                    | Inr sz \<Rightarrow>
                                       (case py_int rt sz of
                                          Inl e \<Rightarrow> Raised e w1
                                        | Inr file_size \<Rightarrow>
                                           if int (length bytes) \<noteq> file_size
                                           then Raised DownloadError w1
                                           else (case place (disk w1) target_file file_path now of
                                                   Raised e fs' \<Rightarrow> Raised e (w1\<lparr>disk := fs'\<rparr>)
                                                 | Done fs' \<Rightarrow>
                                                     Done (w1\<lparr>disk := fs',
                                                       hooks := hooks w1 @
                                                         [(nm, job_save_as j, file_path)]\<rparr>)))))
                      | Some v \<Rightarrow> Raised TypeError w))
           | Some v \<Rightarrow> Raised TypeError w))"

fun download_files :: "runtime \<Rightarrow> session \<Rightarrow> job \<Rightarrow> ustr \<Rightarrow> dict list \<Rightarrow> world \<Rightarrow> world eff" where
  "download_files rt sess j rel [] w = Done w"
| "download_files rt sess j rel (file_data # rest) w =
     (case file_step rt sess j rel file_data w of
        Raised e w' \<Rightarrow> Raised e w'
      | Done w' \<Rightarrow> download_files rt sess j rel rest w')"

text \<open>
  \<^verbatim>\<open>download_recursive\<close> and its loop over the cleaned folder entries. The remote
  hierarchy is whatever the session answers, so the recursion depth is bounded by a fuel
  argument: \<open>None\<close> means that the fuel did not suffice.
\<close>

fun download_recursive ::
    "nat \<Rightarrow> runtime \<Rightarrow> session \<Rightarrow> job \<Rightarrow> pyval \<Rightarrow> ustr \<Rightarrow> world \<Rightarrow> world eff option"
  and download_folders ::
    "nat \<Rightarrow> runtime \<Rightarrow> session \<Rightarrow> job \<Rightarrow> ustr \<Rightarrow> dict list \<Rightarrow> world \<Rightarrow> world eff option"
where
  "download_recursive 0 rt sess j folder_id rel w = None"
| "download_recursive (Suc n) rt sess j folder_id rel w =
     (case get_files_index sess (use_api j) (job_course_id j) folder_id of
        Inl e \<Rightarrow>
          if e = MissingPermissionFolderError then Some (Done w) else Some (Raised e w)
      | Inr (form_data_files, form_data_folders) \<Rightarrow>
         (case check_and_cleanup_form_data rt form_data_files form_data_folders (use_api j) of
            Inl e \<Rightarrow> Some (Raised e w)
          | Inr (files_new, folders_new) \<Rightarrow>
             (case download_files rt sess j rel files_new w of
                Raised e w' \<Rightarrow> Some (Raised e w')
              | Done w' \<Rightarrow> download_folders n rt sess j rel folders_new w')))"
| "download_folders n rt sess j rel [] w = Some (Done w)"
| "download_folders n rt sess j rel (folder_data # rest) w =
     (case folder_data ''name'' of
        None \<Rightarrow> Some (Raised KeyError w)
      | Some (PStr nm) \<Rightarrow>
         (case folder_data ''id'' of
            None \<Rightarrow> Some (Raised KeyError w)
          | Some fid \<Rightarrow>
             (case download_recursive n rt sess j fid (path_join rel nm) w of
                None \<Rightarrow> None
              | Some (Raised e w') \<Rightarrow> Some (Raised e w')
              | Some (Done w') \<Rightarrow> download_folders n rt sess j rel rest w'))
      | Some v \<Rightarrow> Some (Raised TypeError w))"

text \<open>\<^verbatim>\<open>CourseRSync.download\<close> with \<^verbatim>\<open>course_has_new_files\<close>.\<close>

definition course_download ::
    "nat \<Rightarrow> runtime \<Rightarrow> session \<Rightarrow> job \<Rightarrow> bool \<Rightarrow> int \<Rightarrow> world \<Rightarrow> world eff option" where
  "course_download fuel rt sess j sync_fully last_sync w =
     (case (if sync_fully then Inr True
            else check_course_new_files sess (job_course_id j) last_sync) of
        Inl e \<Rightarrow> Some (Raised e w)
      | Inr True \<Rightarrow> download_recursive fuel rt sess j PNone [] w
      | Inr False \<Rightarrow> Some (Done w))"

section \<open>Sample data for the placement\<close>

definition demo_now :: moment where
  "demo_now = \<lparr>epoch = 100, year = 2026, month = 11, day = 3, hour = 22, minute = 5, second = 7\<rparr>"

definition demo_later :: moment where
  "demo_later = \<lparr>epoch = 101, year = 2026, month = 11, day = 3, hour = 22, minute = 5, second = 8\<rparr>"

definition demo_dest :: ustr where
  "demo_dest = U ''/dst/a.pdf''"

definition demo_t1 :: ustr where
  "demo_t1 = U ''/tmp/w/1f''"

definition demo_t2 :: ustr where
  "demo_t2 = U ''/tmp/w/2e''"

definition demo_fs :: filesys where
  "demo_fs = [demo_dest \<mapsto> \<lparr>fdata = [1], mtime = 5\<rparr>,
              demo_t1 \<mapsto> \<lparr>fdata = [2], mtime = 100\<rparr>,
              demo_t2 \<mapsto> \<lparr>fdata = [3], mtime = 100\<rparr>]"

section \<open>Strategy B: \<^verbatim>\<open>Extractor\<close>\<close>

text \<open>
  The staging area is a tree: a directory is the list of its entries (name and node) in
  listing order. \<open>Zip\<close> carries the tree that \<^verbatim>\<open>extractall\<close> creates in an empty
  directory; \<open>BadZip\<close> is a file that \<^verbatim>\<open>zipfile.ZipFile\<close> rejects.
\<close>

type_synonym entries = "(ustr \<times> tnode) list"

fun is_dir :: "tnode \<Rightarrow> bool" where
  "is_dir (TDir es) = True"
| "is_dir (TFile d) = False"

fun is_file :: "tnode option \<Rightarrow> bool" where
  "is_file (Some (TFile d)) = True"
| "is_file x = False"

text \<open>
  \<^verbatim>\<open>archive.extractall(destination)\<close> into a directory that may already hold entries:
  a file replaces a file, a directory is merged into a directory, and a file meeting a
  directory (or the reverse) raises \<^verbatim>\<open>OSError\<close>.
\<close>

function overlay :: "entries \<Rightarrow> entries \<Rightarrow> exn + entries"
  and put :: "ustr \<Rightarrow> tnode \<Rightarrow> entries \<Rightarrow> exn + entries"
where
  "overlay [] ex = Inr ex"
| "overlay ((n, t) # cs) ex =
     (case put n t ex of Inl e \<Rightarrow> Inl e | Inr ex' \<Rightarrow> overlay cs ex')"
| "put n t [] = Inr [(n, t)]"
| "put n t ((m, u) # ex) =
     (if m = n
      then (case t of
              TFile d \<Rightarrow> (case u of TFile d' \<Rightarrow> Inr ((n, TFile d) # ex) | TDir us \<Rightarrow> Inl OSError)
            | TDir cs \<Rightarrow>
               (case u of
                  TFile d' \<Rightarrow> Inl OSError
                | TDir us \<Rightarrow>
                   (case overlay cs us of Inl e \<Rightarrow> Inl e | Inr r \<Rightarrow> Inr ((n, TDir r) # ex))))
      else (case put n t ex of Inl e \<Rightarrow> Inl e | Inr r \<Rightarrow> Inr ((m, u) # r)))"
  by pat_completeness auto
termination
  by (relation "measures
        [\<lambda>x. case x of Inl (cs, ex) \<Rightarrow> size_list (size_prod (\<lambda>n. 0) size) cs
                      | Inr (n, t, ex) \<Rightarrow> size t,
         \<lambda>x. case x of Inl (cs, ex) \<Rightarrow> 0 | Inr (n, t, ex) \<Rightarrow> Suc (length ex)]") auto

text \<open>\<^verbatim>\<open>remove_filelist\<close>: the manifest goes when it is a regular file.\<close>

definition remove_filelist :: "entries \<Rightarrow> entries" where
  "remove_filelist es =
     (if is_file (map_of es (U ''archive_filelist.csv''))
      then filter (\<lambda>(n, t). n \<noteq> U ''archive_filelist.csv'') es
      else es)"

text \<open>
  \<^verbatim>\<open>glob.has_magic\<close>: the string has one of the characters \<^verbatim>\<open>* ? [\<close>.
\<close>

definition has_magic :: "ustr \<Rightarrow> bool" where
  "has_magic s = list_ex (\<lambda>c. c = 42 \<or> c = 63 \<or> c = 91) s"

text \<open>The components of a path: the texts between its slashes.\<close>

fun components :: "ustr \<Rightarrow> ustr list" where
  "components [] = [[]]"
| "components (c # s) =
     (if c = 47 then [] # components s
      else (case components s of [] \<Rightarrow> [[c]] | b # bs \<Rightarrow> (c # b) # bs))"

text \<open>
  \<^verbatim>\<open>glob.iglob(os.path.join(intermediary, "*"))\<close> reads the path of the wrapper as a
  pattern when it has one of the characters \<^verbatim>\<open>* ? [\<close>: from the right, a component
  with such a character is matched by \<^verbatim>\<open>fnmatch\<close> against the names of the directories
  at that place, a component without one has to exist. So the wrapper itself is among
  the directories whose children are listed exactly when each of its components with such
  a character matches itself (\<^verbatim>\<open>Kurs [A]\<close> does not: the class matches the letter
  \<^verbatim>\<open>A\<close> only); a path without such a character always finds the wrapper. Directories
  other than the wrapper that match the pattern are not part of the model: the wrapper is
  the only directory in the extracted directory, and the names strategy B gives to the
  extracted directories are made of digits, letters and spaces, under a scratch directory
  of \<^verbatim>\<open>tempfile.mkdtemp\<close>.
\<close>

definition glob_finds :: "runtime \<Rightarrow> ustr \<Rightarrow> bool" where
  "glob_finds rt p = list_all (\<lambda>b. \<not> has_magic b \<or> fnmatch rt b b) (components p)"

text \<open>
  \<^verbatim>\<open>remove_intermediary_dir\<close>. The children that \<^verbatim>\<open>glob\<close> lists are those whose names
  do not start with a dot, or none when the pattern does not find the wrapper.
  \<^verbatim>\<open>shutil.move(child, extracted_dir)\<close> raises \<^verbatim>\<open>shutil.Error\<close> when the directory
  already has an entry of that name. \<^verbatim>\<open>os.rmdir\<close> raises \<^verbatim>\<open>OSError\<close> when the wrapper
  still has an entry.
\<close>

definition hidden :: "ustr \<Rightarrow> bool" where
  "hidden n = (n \<noteq> [] \<and> hd n = 46)"

text \<open>\<open>move_children to_move inner es\<close>: \<open>inner\<close> is what the wrapper still holds,
  \<open>es\<close> the extracted directory; the result says whether a move raised.\<close>

fun move_children :: "entries \<Rightarrow> entries \<Rightarrow> entries \<Rightarrow> bool \<times> entries \<times> entries" where
  "move_children [] inner es = (False, inner, es)"
| "move_children ((n, t) # rest) inner es =
     (if n \<in> set (map fst es) then (True, inner, es)
      else move_children rest (remove1 (n, t) inner) (es @ [(n, t)]))"

definition set_children :: "ustr \<Rightarrow> entries \<Rightarrow> entries \<Rightarrow> entries" where
  "set_children w inner es = map (\<lambda>(n, t). if n = w then (n, TDir inner) else (n, t)) es"

definition remove_intermediary_dir :: "runtime \<Rightarrow> ustr \<Rightarrow> entries \<Rightarrow> entries eff" where
  "remove_intermediary_dir rt extracted_dir es =
     (case filter (\<lambda>(n, t). is_dir t) es of
        [(w, TDir inner)] \<Rightarrow>
          (let intermediary = path_join extracted_dir w;
               children = (if glob_finds rt intermediary
                           then filter (\<lambda>(n, t). \<not> hidden n) inner else [])
           in case move_children children inner es of
                (True, inner', es') \<Rightarrow> Raised ShutilError (set_children w inner' es')
              | (False, inner', es') \<Rightarrow>
                  if inner' = [] then Done (filter (\<lambda>(n, t). n \<noteq> w) es')
                  else Raised OSError (set_children w inner' es'))
      | subdirs \<Rightarrow> Done es)"

text \<open>
  \<^verbatim>\<open>remove_empty_dirs\<close>: \<^verbatim>\<open>os.walk\<close> visits a directory before its subdirectories, and
  the loop body removes the directory it visits when the listing taken at the visit is
  empty. \<open>None\<close> means that the node was removed.
\<close>

fun walk :: "tnode \<Rightarrow> tnode option"
  and walk_entries :: "entries \<Rightarrow> entries"
where
  "walk (TFile d) = Some (TFile d)"
| "walk (TDir es) = (if es = [] then None else Some (TDir (walk_entries es)))"
| "walk_entries [] = []"
| "walk_entries ((n, t) # es) =
     (case t of
        TFile d \<Rightarrow> (n, t) # walk_entries es
      | TDir sub \<Rightarrow>
         (case walk t of None \<Rightarrow> walk_entries es | Some t' \<Rightarrow> (n, t') # walk_entries es))"

definition remove_empty_dirs :: "entries \<Rightarrow> entries option" where
  "remove_empty_dirs es = (case walk (TDir es) of Some (TDir es') \<Rightarrow> Some es' | x \<Rightarrow> None)"

text \<open>The three cleanup steps of \<^verbatim>\<open>extract\<close>, in source order.\<close>

definition cleanup :: "runtime \<Rightarrow> ustr \<Rightarrow> entries \<Rightarrow> (entries option) eff" where
  "cleanup rt directory es =
     (case remove_intermediary_dir rt directory (remove_filelist es) of
        Raised e es' \<Rightarrow> Raised e (Some es')
      | Done es' \<Rightarrow> Done (remove_empty_dirs es'))"

text \<open>
  \<^verbatim>\<open>Extractor.extract(archive_filename, destination)\<close> with \<^verbatim>\<open>cleanup=True\<close>. The
  staging area maps the path of a destination directory to its entries; a path that is
  not in its domain names no directory. Opening a bad archive raises
  \<^verbatim>\<open>ExtractionError\<close>; joining the base directory with a destination that is not a
  string raises \<^verbatim>\<open>TypeError\<close>. An archive without entries makes \<^verbatim>\<open>extractall\<close> create
  nothing: when the destination directory does not exist yet, \<^verbatim>\<open>remove_filelist\<close>
  finds no manifest and \<^verbatim>\<open>os.listdir\<close> in \<^verbatim>\<open>remove_intermediary_dir\<close> raises
  \<^verbatim>\<open>FileNotFoundError\<close>.
\<close>

type_synonym staging = "ustr \<rightharpoonup> entries"

definition store :: "staging \<Rightarrow> ustr \<Rightarrow> entries option \<Rightarrow> staging" where
  "store st p r = st(p := r)"

definition extractor_extract ::
    "runtime \<Rightarrow> ustr \<Rightarrow> staging \<Rightarrow> archive \<Rightarrow> pyval \<Rightarrow> staging eff" where
  "extractor_extract rt basedir st a destination =
     (case a of
        BadZip \<Rightarrow> Raised ExtractionError st
      | Zip content \<Rightarrow>
         (case destination of
            PStr d \<Rightarrow>
              (let dest = path_join basedir d in
               if content = [] \<and> st dest = None then Raised FileNotFoundError st
               else
                case overlay content (case st dest of None \<Rightarrow> [] | Some ex \<Rightarrow> ex) of
                  Inl e \<Rightarrow> Raised e st
                | Inr es \<Rightarrow>
                   (case cleanup rt dest es of
                      Raised e r \<Rightarrow> Raised e (store st dest r)
                    | Done r \<Rightarrow> Done (store st dest r)))
          | v \<Rightarrow> Raised TypeError st))"

text \<open>No directory of the tree is empty.\<close>

fun no_empty_dir :: "tnode \<Rightarrow> bool"
  and no_empty_dirs :: "entries \<Rightarrow> bool"
where
  "no_empty_dir (TFile d) = True"
| "no_empty_dir (TDir es) = (es \<noteq> [] \<and> no_empty_dirs es)"
| "no_empty_dirs [] = True"
| "no_empty_dirs ((n, t) # es) = (no_empty_dir t \<and> no_empty_dirs es)"

text \<open>
  A sample archive: one wrapper directory \<^verbatim>\<open>Course\<close> holding the file \<^verbatim>\<open>x.txt\<close> and
  the directory \<^verbatim>\<open>A\<close>, whose only entry is the empty directory \<^verbatim>\<open>B\<close>.
\<close>

definition wrapped_tree :: entries where
  "wrapped_tree =
     [(U ''Course'', TDir [(U ''x.txt'', TFile [1]), (U ''A'', TDir [(U ''B'', TDir [])])]),
      (U ''archive_filelist.csv'', TFile [2])]"

section \<open>SyncRunner: configuration, ignore list and the steps before the course loop\<close>

record config =
  files_destination :: "ustr option"
  media_destination :: "ustr option"
  ignore_courses :: "ustr list"
  config_semester :: "ustr option"
  use_new_file_structure :: bool
  run_workdir :: ustr

text \<open>\<^verbatim>\<open>if self.files_destination_dir:\<close> holds for a non-empty string.\<close>

definition configured :: "ustr option \<Rightarrow> bool" where
  "configured d = (case d of None \<Rightarrow> False | Some s \<Rightarrow> s \<noteq> [])"

text \<open>\<^verbatim>\<open>ignore.replace('*', '.*')\<close>\<close>

definition replace_star :: "ustr \<Rightarrow> ustr" where
  "replace_star s = concat (map (\<lambda>c. if c = 42 then [46, 42] else [c]) s)"

text \<open>
  \<^verbatim>\<open>re.match(ignore.replace('*', '.*'), course["save_as"])\<close>: the pattern is compiled
  first (\<^verbatim>\<open>re.error\<close>), then a subject that is not a string raises \<^verbatim>\<open>TypeError\<close>.
\<close>

definition ignore_match :: "runtime \<Rightarrow> ustr \<Rightarrow> pyval \<Rightarrow> exn + bool" where
  "ignore_match rt ignore subject =
     (if \<not> re_compiles rt (replace_star ignore) then Inl ReError
      else (case subject of
              PStr s \<Rightarrow> Inr (re_matches rt (replace_star ignore) s)
            | v \<Rightarrow> Inl TypeError))"

text \<open>\<^verbatim>\<open>any(... for ignore in self.ignore_courses)\<close> stops at the first match.\<close>

fun any_ignore :: "runtime \<Rightarrow> ustr list \<Rightarrow> pyval \<Rightarrow> exn + bool" where
  "any_ignore rt [] subject = Inr False"
| "any_ignore rt (ignore # rest) subject =
     (case ignore_match rt ignore subject of
        Inl e \<Rightarrow> Inl e
      | Inr True \<Rightarrow> Inr True
      | Inr False \<Rightarrow> any_ignore rt rest subject)"

definition is_ignored :: "runtime \<Rightarrow> config \<Rightarrow> ustr \<Rightarrow> pyval \<Rightarrow> exn + bool" where
  "is_ignored rt cfg cid subject =
     (if cid \<in> set (ignore_courses cfg) then Inr True
      else any_ignore rt (ignore_courses cfg) subject)"

text \<open>
  Login, semester selection and course list: the run returns 1, lets an exception
  escape, or enters the loop with the courses.
\<close>

datatype prologue_result = Return1 | Escape exn | Courses "course list"

definition semester_keywords :: "ustr list" where
  "semester_keywords =
     [U ''all'', U ''current'', U ''last'', U ''future'', U ''lastandnext'', U ''lastandbefore'']"

definition prologue :: "session \<Rightarrow> config \<Rightarrow> bool \<Rightarrow> prologue_result" where
  "prologue sess cfg sync_recent =
     (case login_result sess of
        Some e \<Rightarrow> if e = LoginError \<or> e = ParserError then Return1 else Escape e
      | None \<Rightarrow>
         if (case config_semester cfg of
               None \<Rightarrow> False
             | Some sem \<Rightarrow> sem \<notin> set semester_keywords \<and> get_semester_id sess sem = None)
         then Return1
         else (case get_courses sess sync_recent of
                 Inl e \<Rightarrow> if e = LoginError \<or> e = ParserError then Return1 else Escape e
               | Inr courses \<Rightarrow> Courses courses))"

text \<open>
  The variables of the course loop: the aggregate status, the courses whose progress
  line was printed, and the files. What a run leaves behind: the value it returns or the
  exception that escapes, and the stored last-sync time stamp.
\<close>

record 'w loop_state =
  status_code :: int
  processed :: "ustr list"
  world :: 'w

record 'w run_end =
  result :: "exn + int"
  last_sync_after :: int
  end_state :: "'w loop_state"

section \<open>SyncRunner of strategy A: \<^verbatim>\<open>StudIPRSync.sync\<close>\<close>

definition get_course_save_as :: "runtime \<Rightarrow> config \<Rightarrow> course \<Rightarrow> ustr" where
  "get_course_save_as rt cfg c =
     (if use_new_file_structure cfg
      then path_join (semester_id c @ U '' - '' @ clean_name (semester c))
                     (short_course_name_rsync rt (save_as c))
      else short_course_name_rsync rt (save_as c))"

text \<open>The \<^verbatim>\<open>try\<close> statement around the file download of one course.\<close>

definition files_part_rsync ::
    "nat \<Rightarrow> runtime \<Rightarrow> session \<Rightarrow> config \<Rightarrow> bool \<Rightarrow> bool \<Rightarrow> int \<Rightarrow> course \<Rightarrow>
     world loop_state \<Rightarrow> world loop_state eff option" where
  "files_part_rsync fuel rt sess cfg sync_fully api last_sync c ls =
     (case files_destination cfg of
        None \<Rightarrow> Some (Done ls)
      | Some dir \<Rightarrow>
         if dir = [] then Some (Done ls)
         else
          (let j = \<lparr> job_course_id = course_id c, job_save_as = save_as c,
                     root_folder = path_join dir (get_course_save_as rt cfg c),
                     workdir = run_workdir cfg, use_api = api \<rparr>
           in case course_download fuel rt sess j sync_fully last_sync (world ls) of
                None \<Rightarrow> None
              | Some (Done w') \<Rightarrow> Some (Done (ls\<lparr>world := w'\<rparr>))
              | Some (Raised e w') \<Rightarrow>
                  if e = MissingFeatureError then Some (Done (ls\<lparr>world := w'\<rparr>))
                  else if e = DownloadError
                  then Some (Raised e (ls\<lparr>world := w', status_code := 2\<rparr>))
                  else Some (Raised e (ls\<lparr>world := w'\<rparr>))))"

text \<open>The \<^verbatim>\<open>try\<close> statement around the media download of one course.\<close>

definition media_part_rsync :: "session \<Rightarrow> config \<Rightarrow> course \<Rightarrow> 'w loop_state \<Rightarrow> 'w loop_state eff" where
  "media_part_rsync sess cfg c ls =
     (if configured (media_destination cfg)
      then (case download_media sess (course_id c) of
              None \<Rightarrow> Done ls
            | Some e \<Rightarrow>
                if e = MissingFeatureError \<or> e = MissingPermissionFolderError then Done ls
                else if e = DownloadError then Raised e (ls\<lparr>status_code := 2\<rparr>)
                else if e = ParserError
                then (if status_code ls \<noteq> 0 then Raised e ls else Done (ls\<lparr>status_code := 2\<rparr>))
                else Raised e ls)
      else Done ls)"

definition course_step_rsync ::
    "nat \<Rightarrow> runtime \<Rightarrow> session \<Rightarrow> config \<Rightarrow> bool \<Rightarrow> bool \<Rightarrow> int \<Rightarrow> course \<Rightarrow>
     world loop_state \<Rightarrow> world loop_state eff option" where
  "course_step_rsync fuel rt sess cfg sync_fully api last_sync c ls =
     (case is_ignored rt cfg (course_id c) (PStr (save_as c)) of
        Inl e \<Rightarrow> Some (Raised e ls)
      | Inr True \<Rightarrow> Some (Done ls)
      | Inr False \<Rightarrow>
         (case files_part_rsync fuel rt sess cfg sync_fully api last_sync c
                 (ls\<lparr>processed := processed ls @ [course_id c]\<rparr>) of
            None \<Rightarrow> None
          | Some (Raised e ls') \<Rightarrow> Some (Raised e ls')
          | Some (Done ls') \<Rightarrow> Some (media_part_rsync sess cfg c ls')))"

fun courses_loop_rsync ::
    "nat \<Rightarrow> runtime \<Rightarrow> session \<Rightarrow> config \<Rightarrow> bool \<Rightarrow> bool \<Rightarrow> int \<Rightarrow> course list \<Rightarrow>
     world loop_state \<Rightarrow> world loop_state eff option" where
  "courses_loop_rsync fuel rt sess cfg sync_fully api last_sync [] ls = Some (Done ls)"
| "courses_loop_rsync fuel rt sess cfg sync_fully api last_sync (c # rest) ls =
     (case course_step_rsync fuel rt sess cfg sync_fully api last_sync c ls of
        None \<Rightarrow> None
      | Some (Raised e ls') \<Rightarrow> Some (Raised e ls')
      | Some (Done ls') \<Rightarrow> courses_loop_rsync fuel rt sess cfg sync_fully api last_sync rest ls')"

text \<open>
  \<^verbatim>\<open>StudIPRSync.sync(sync_fully, sync_recent, use_api)\<close>, started with the stored
  time stamp \<open>last_sync\<close> and the files \<open>w\<close>. The fuel bounds the depth of every folder
  traversal of the run.
\<close>

definition sync_rsync ::
    "nat \<Rightarrow> runtime \<Rightarrow> session \<Rightarrow> config \<Rightarrow> bool \<Rightarrow> bool \<Rightarrow> bool \<Rightarrow> int \<Rightarrow> world \<Rightarrow>
     world run_end option" where
  "sync_rsync fuel rt sess cfg sync_fully sync_recent api last_sync w =
     (let start = \<lparr> status_code = 0, processed = [], world = w \<rparr> in
      case prologue sess cfg sync_recent of
        Return1 \<Rightarrow> Some \<lparr> result = Inr 1, last_sync_after = last_sync, end_state = start \<rparr>
      | Escape e \<Rightarrow> Some \<lparr> result = Inl e, last_sync_after = last_sync, end_state = start \<rparr>
      | Courses courses \<Rightarrow>
         (case courses_loop_rsync fuel rt sess cfg sync_fully api last_sync courses start of
            None \<Rightarrow> None
          | Some (Raised e ls) \<Rightarrow>
              Some \<lparr> result = Inl e, last_sync_after = last_sync, end_state = ls \<rparr>
          | Some (Done ls) \<Rightarrow>
              Some \<lparr> result = Inr (status_code ls),
                     last_sync_after =
                       (if configured (files_destination cfg) \<and> status_code ls = 0
                        then epoch (clock sess (ticks (world ls))) else last_sync),
                     end_state = ls \<rparr>))"

section \<open>SyncRunner of strategy B: \<^verbatim>\<open>StudipSync.sync\<close>\<close>

text \<open>What a run of strategy B changes: the staging area, and whether the mirror pass
  was started.\<close>

record archive_world =
  staging_dirs :: staging
  mirrored :: bool

text \<open>The \<^verbatim>\<open>try\<close> statement around download and extraction of one course; \<open>name\<close>
  is the value of \<^verbatim>\<open>course["save_as"]\<close> after it was overwritten.\<close>

definition fetch_and_extract ::
    "runtime \<Rightarrow> session \<Rightarrow> config \<Rightarrow> bool \<Rightarrow> int \<Rightarrow> course \<Rightarrow> pyval \<Rightarrow> staging \<Rightarrow>
     staging eff" where
  "fetch_and_extract rt sess cfg sync_fully last_sync c name st =
     (case (if sync_fully then Inr True
            else check_course_new_files sess (course_id c) last_sync) of
        Inl e \<Rightarrow> Raised e st
      | Inr False \<Rightarrow> Done st
      | Inr True \<Rightarrow>
         (case download sess (course_id c) (sync_only c) of
            Inl e \<Rightarrow> Raised e st
          | Inr zip_location \<Rightarrow>
              extractor_extract rt (path_join (run_workdir cfg) (U ''extracted'')) st
                zip_location name))"

definition files_part_sync ::
    "runtime \<Rightarrow> session \<Rightarrow> config \<Rightarrow> bool \<Rightarrow> int \<Rightarrow> course \<Rightarrow> pyval \<Rightarrow>
     archive_world loop_state \<Rightarrow> archive_world loop_state eff" where
  "files_part_sync rt sess cfg sync_fully last_sync c name ls =
     (if configured (files_destination cfg)
      then (case fetch_and_extract rt sess cfg sync_fully last_sync c name (staging_dirs (world ls)) of
              Done st' \<Rightarrow> Done (ls\<lparr>world := (world ls)\<lparr>staging_dirs := st'\<rparr>\<rparr>)
            | Raised e st' \<Rightarrow>
                if e = MissingFeatureError
                then Done (ls\<lparr>world := (world ls)\<lparr>staging_dirs := st'\<rparr>\<rparr>)
                else if e = DownloadError \<or> e = ExtractionError
                then Done (ls\<lparr>world := (world ls)\<lparr>staging_dirs := st'\<rparr>, status_code := 2\<rparr>)
                else Raised e (ls\<lparr>world := (world ls)\<lparr>staging_dirs := st'\<rparr>\<rparr>))
      else Done ls)"

text \<open>The \<^verbatim>\<open>try\<close> statement around the media download; the path of the media
  directory is joined inside it.\<close>

definition media_part_sync ::
    "session \<Rightarrow> config \<Rightarrow> course \<Rightarrow> pyval \<Rightarrow> 'w loop_state \<Rightarrow> 'w loop_state eff" where
  "media_part_sync sess cfg c name ls =
     (if configured (media_destination cfg)
      then (case name of
              PStr s \<Rightarrow>
               (case download_media sess (course_id c) of
                  None \<Rightarrow> Done ls
                | Some e \<Rightarrow>
                    if e = MissingFeatureError \<or> e = MissingPermissionFolderError then Done ls
                    else if e = DownloadError then Done (ls\<lparr>status_code := 2\<rparr>)
                    else if e = ParserError
                    then (if status_code ls \<noteq> 0 then Raised e ls
                          else Done (ls\<lparr>status_code := 2\<rparr>))
                    else Raised e ls)
            | v \<Rightarrow> Raised TypeError ls)
      else Done ls)"

definition course_step_sync ::
    "runtime \<Rightarrow> session \<Rightarrow> config \<Rightarrow> bool \<Rightarrow> int \<Rightarrow> course \<Rightarrow>
     archive_world loop_state \<Rightarrow> archive_world loop_state eff" where
  "course_step_sync rt sess cfg sync_fully last_sync c ls =
     (let name = short_course_name_sync rt (save_as c) in
      case is_ignored rt cfg (course_id c) name of
        Inl e \<Rightarrow> Raised e ls
      | Inr True \<Rightarrow> Done ls
      | Inr False \<Rightarrow>
         (case files_part_sync rt sess cfg sync_fully last_sync c name
                 (ls\<lparr>processed := processed ls @ [course_id c]\<rparr>) of
            Raised e ls' \<Rightarrow> Raised e ls'
          | Done ls' \<Rightarrow> media_part_sync sess cfg c name ls'))"

fun courses_loop_sync ::
    "runtime \<Rightarrow> session \<Rightarrow> config \<Rightarrow> bool \<Rightarrow> int \<Rightarrow> course list \<Rightarrow>
     archive_world loop_state \<Rightarrow> archive_world loop_state eff" where
  "courses_loop_sync rt sess cfg sync_fully last_sync [] ls = Done ls"
| "courses_loop_sync rt sess cfg sync_fully last_sync (c # rest) ls =
     (case course_step_sync rt sess cfg sync_fully last_sync c ls of
        Raised e ls' \<Rightarrow> Raised e ls'
      | Done ls' \<Rightarrow> courses_loop_sync rt sess cfg sync_fully last_sync rest ls')"

text \<open>
  \<^verbatim>\<open>StudipSync.sync(sync_fully, sync_recent)\<close>. After the loop the mirror program is
  started when a files destination is configured, and only then is the time stamp
  considered.
\<close>

definition sync_sync ::
    "runtime \<Rightarrow> session \<Rightarrow> config \<Rightarrow> bool \<Rightarrow> bool \<Rightarrow> int \<Rightarrow> staging \<Rightarrow> archive_world run_end" where
  "sync_sync rt sess cfg sync_fully sync_recent last_sync st =
     (let start = \<lparr> status_code = 0, processed = [],
                    world = \<lparr> staging_dirs = st, mirrored = False \<rparr> \<rparr> in
      case prologue sess cfg sync_recent of
        Return1 \<Rightarrow> \<lparr> result = Inr 1, last_sync_after = last_sync, end_state = start \<rparr>
      | Escape e \<Rightarrow> \<lparr> result = Inl e, last_sync_after = last_sync, end_state = start \<rparr>
      | Courses courses \<Rightarrow>
         (case courses_loop_sync rt sess cfg sync_fully last_sync courses start of
            Raised e ls \<Rightarrow> \<lparr> result = Inl e, last_sync_after = last_sync, end_state = ls \<rparr>
          | Done ls \<Rightarrow>
              if configured (files_destination cfg)
              then (case mirror_result sess of
                      Some e \<Rightarrow> \<lparr> result = Inl e, last_sync_after = last_sync, end_state = ls \<rparr>
                    | None \<Rightarrow>
                        \<lparr> result = Inr (status_code ls),
                          last_sync_after =
                            (if status_code ls = 0 then epoch (clock sess 0) else last_sync),
                          end_state = ls\<lparr>world := (world ls)\<lparr>mirrored := True\<rparr>\<rparr> \<rparr>)
              else \<lparr> result = Inr (status_code ls), last_sync_after = last_sync,
                     end_state = ls \<rparr>))"

section \<open>Sample runs\<close>

text \<open>
  Three courses: the title of the first one does not match the short-name pattern, the
  titles of the other two do. The sample session lists the last two, answers every root
  folder with one file of three bytes and no subfolder, downloads three bytes, reports
  new files for every course and hands out the sample archive.
\<close>

definition course_mathe :: course where
  "course_mathe = \<lparr> course_id = U ''c1'', save_as = U ''Mathe'', semester = U ''WS'',
                     semester_id = U ''s1'', sync_only = PNone \<rparr>"

definition course_algo :: course where
  "course_algo = \<lparr> course_id = U ''c2'', save_as = U ''12 V Algo 2'', semester = U ''WS'',
                    semester_id = U ''s1'', sync_only = PNone \<rparr>"

definition course_logic :: course where
  "course_logic = \<lparr> course_id = U ''c3'', save_as = U ''34 S Logic'', semester = U ''WS'',
                     semester_id = U ''s1'', sync_only = PNone \<rparr>"

definition demo_session :: session where
  "demo_session =
     \<lparr> login_result = None,
       get_semester_id = (\<lambda>s. None),
       get_courses = (\<lambda>recent. Inr [course_algo, course_logic]),
       get_files_index = (\<lambda>api cid fid.
          if fid = PNone then Inr ([sample_file(''download_url'' \<mapsto> PStr (U ''u''))], [])
          else Inr ([], [])),
       download_file = (\<lambda>api v. Inr [1, 2, 3]),
       check_course_new_files = (\<lambda>cid t. Inr True),
       download_media = (\<lambda>cid. None),
       download = (\<lambda>cid so. Inr (Zip wrapped_tree)),
       mirror_result = None,
       clock = (\<lambda>n. demo_now\<lparr>epoch := 100 + int n, second := 7 + n\<rparr>) \<rparr>"

text \<open>The same session, except that every download writes two bytes only.\<close>

definition short_session :: session where
  "short_session = demo_session\<lparr> download_file := (\<lambda>api v. Inr [1, 2]) \<rparr>"

text \<open>The same session, except that the archive download of the course \<^verbatim>\<open>c2\<close> fails.\<close>

definition zipfail_session :: session where
  "zipfail_session = demo_session\<lparr> download := (\<lambda>cid so.
      if cid = U ''c2'' then Inl DownloadError else Inr (Zip wrapped_tree)) \<rparr>"

text \<open>A session that lists the unmatched course first and reports no new files.\<close>

definition quiet_session :: session where
  "quiet_session = demo_session\<lparr> get_courses := (\<lambda>recent. Inr [course_mathe, course_algo]),
      check_course_new_files := (\<lambda>cid t. Inr False) \<rparr>"

definition demo_config :: config where
  "demo_config = \<lparr> files_destination = Some (U ''/dst''), media_destination = None,
                    ignore_courses = [], config_semester = None,
                    use_new_file_structure = False, run_workdir = U ''/tmp/w'' \<rparr>"

definition empty_world :: world where
  "empty_world = \<lparr> disk = Map.empty, ticks = 0, hooks = [] \<rparr>"

definition demo_job :: job where
  "demo_job = \<lparr> job_course_id = U ''c2'', job_save_as = U ''12 V Algo 2'',
                 root_folder = U ''/dst/12 V Algo 2'', workdir = U ''/tmp/w'', use_api = True \<rparr>"

text \<open>A session whose media download fails with a parsing failure for the course
  \<^verbatim>\<open>c2\<close>, and a configuration with a media destination.\<close>

definition media_session :: session where
  "media_session = demo_session\<lparr> download_media := (\<lambda>cid.
      if cid = U ''c2'' then Some ParserError else None) \<rparr>"

definition media_config :: config where
  "media_config = demo_config\<lparr> media_destination := Some (U ''/media'') \<rparr>"

text \<open>The loop variables of strategy B at the start of a run with an empty staging area.\<close>

definition start_b :: "archive_world loop_state" where
  "start_b = \<lparr> status_code = 0, processed = [],
               world = \<lparr> staging_dirs = Map.empty, mirrored = False \<rparr> \<rparr>"

section \<open>Properties of \<^verbatim>\<open>clean_name\<close>\<close>

lemma strip_subset: "set (strip s) \<subseteq> set s"
proof -
  have "set (strip s) \<subseteq> set (rev (dropWhile isspace s))"
    unfolding strip_def using set_dropWhileD by fastforce
  also have "\<dots> \<subseteq> set s"
    using set_dropWhileD by fastforce
  finally show ?thesis .
qed

lemma replace_slash_no_slash: "47 \<notin> set (replace_slash s)"
  by (induction s) (auto simp: replace_slash_def)

lemma replace_slash_id: "47 \<notin> set s \<Longrightarrow> replace_slash s = s"
  by (induction s) (auto simp: replace_slash_def)

lemma remove_disallowed_no_slash: "47 \<notin> set s \<Longrightarrow> 47 \<notin> set (remove_disallowed s)"
  by (simp add: remove_disallowed_def)

lemma remove_disallowed_clean: "set (remove_disallowed s) \<inter> set disallowed = {}"
  by (auto simp: remove_disallowed_def)

lemma remove_disallowed_id: "set s \<inter> set disallowed = {} \<Longrightarrow> remove_disallowed s = s"
  unfolding remove_disallowed_def by (rule filter_True) auto

lemma dropWhile_id: "s = [] \<or> \<not> P (hd s) \<Longrightarrow> dropWhile P s = s"
  by (cases s) auto

lemma dropWhile_hd: "dropWhile P s \<noteq> [] \<Longrightarrow> \<not> P (hd (dropWhile P s))"
  using hd_dropWhile by blast

lemma strip_last: "strip s \<noteq> [] \<Longrightarrow> \<not> isspace (last (strip s))"
proof -
  assume ne: "strip s \<noteq> []"
  let ?r = "dropWhile isspace (rev (dropWhile isspace s))"
  from ne have "?r \<noteq> []" by (simp add: strip_def)
  then have "\<not> isspace (hd ?r)" by (rule dropWhile_hd)
  moreover have "last (strip s) = hd ?r"
    using \<open>?r \<noteq> []\<close> by (simp add: strip_def last_rev)
  ultimately show ?thesis by simp
qed

lemma dropWhile_append_keep:
  "dropWhile P xs \<noteq> [] \<Longrightarrow> dropWhile P (xs @ ys) = dropWhile P xs @ ys"
  by (induction xs) auto

lemma strip_hd: "strip s \<noteq> [] \<Longrightarrow> \<not> isspace (hd (strip s))"
proof -
  assume ne: "strip s \<noteq> []"
  let ?d = "dropWhile isspace s"
  let ?r = "dropWhile isspace (rev ?d)"
  from ne have r: "?r \<noteq> []" by (simp add: strip_def)
  have d: "?d \<noteq> []"
  proof
    assume "?d = []"
    then have "?r = dropWhile isspace (rev [])" by (simp only:)
    with r show False by simp
  qed
  then have hd_d: "\<not> isspace (hd ?d)" by (rule dropWhile_hd)
  obtain x xs where dx: "?d = x # xs" using d by (cases ?d) auto
  have "rev ?d = rev xs @ [x]" using dx by simp
  moreover have "\<not> isspace x" using hd_d dx by simp
  ultimately have "?r = dropWhile isspace (rev xs) @ [x]"
    by (simp add: dropWhile_append3)
  then have "strip s = x # rev (dropWhile isspace (rev xs))"
    by (simp add: strip_def)
  then show ?thesis using \<open>\<not> isspace x\<close> by simp
qed

lemma strip_idem: "strip (strip s) = strip s"
proof (cases "strip s = []")
  case True
  have "strip [] = []" by (simp add: strip_def)
  with True show ?thesis by (simp only:)
next
  case False
  let ?t = "strip s"
  have h: "\<not> isspace (hd ?t)" using False by (rule strip_hd)
  have l: "\<not> isspace (last ?t)" using False by (rule strip_last)
  have "dropWhile isspace ?t = ?t" using h by (intro dropWhile_id) simp
  moreover have "dropWhile isspace (rev ?t) = rev ?t"
    using l False by (intro dropWhile_id) (simp add: hd_rev)
  ultimately show ?thesis by (simp add: strip_def[of ?t])
qed

lemma count_dropWhile: "\<not> P c \<Longrightarrow> count_list (dropWhile P s) c = count_list s c"
  by (induction s) auto

lemma count_strip: "\<not> isspace c \<Longrightarrow> count_list (strip s) c = count_list s c"
  by (simp add: strip_def count_dropWhile)

lemma count_remove_disallowed:
  "c \<notin> set disallowed \<Longrightarrow> count_list (remove_disallowed s) c = count_list s c"
  by (induction s) (auto simp: remove_disallowed_def)

lemma count_replace_slash_dash:
  "count_list (replace_slash s) 45 = count_list s 45 + 2 * count_list s 47"
  by (induction s) (auto simp: replace_slash_def)

lemma count_replace_slash_other:
  "c \<noteq> 45 \<Longrightarrow> c \<noteq> 47 \<Longrightarrow> count_list (replace_slash s) c = count_list s c"
  by (induction s) (auto simp: replace_slash_def)

lemma dash_plain: "\<not> isspace 45 \<and> 45 \<notin> set disallowed"
  by (simp add: isspace_def disallowed_def)

lemma remove_replace_folded:
  "remove_disallowed (replace_slash s) = concat (map folded_char s)"
  by (induction s)
     (auto simp: remove_disallowed_def replace_slash_def folded_char_def disallowed_def)

text \<open>
  C10. For every input string, \<^verbatim>\<open>clean_name\<close> returns a string that contains none of
  the characters \<^verbatim>\<open>\ : * ? " < > |\<close> and no slash, that neither starts nor ends with a
  whitespace character, and that \<^verbatim>\<open>clean_name\<close> maps to itself. The separators are
  folded, not dropped: the result is the input with every slash replaced by two dashes,
  every disallowed character removed and every other character kept in its place, trimmed
  at both ends; so the result has the dashes of the input and two more for each slash,
  and it has every other character that is neither whitespace nor disallowed exactly as
  often as the input has it. (The function is a HOL function of its argument alone:
  equal inputs give equal outputs.)
\<close>

theorem clean_name_safe_idempotent:
  "set (clean_name x) \<inter> set disallowed = {}
   \<and> 47 \<notin> set (clean_name x)
   \<and> (clean_name x = [] \<or> (\<not> isspace (hd (clean_name x)) \<and> \<not> isspace (last (clean_name x))))
   \<and> clean_name (clean_name x) = clean_name x
   \<and> clean_name x = strip (concat (map folded_char x))
   \<and> count_list (clean_name x) 45 = count_list x 45 + 2 * count_list x 47
   \<and> (\<not> isspace c \<and> c \<noteq> 45 \<and> c \<noteq> 47 \<and> c \<notin> set disallowed
        \<longrightarrow> count_list (clean_name x) c = count_list x c)"
proof -
  let ?m = "remove_disallowed (replace_slash x)"
  have sub: "set (clean_name x) \<subseteq> set ?m"
    unfolding clean_name_def by (rule strip_subset)
  have a: "set (clean_name x) \<inter> set disallowed = {}"
    using sub remove_disallowed_clean[of "replace_slash x"] by blast
  have "47 \<notin> set ?m"
    by (rule remove_disallowed_no_slash) (rule replace_slash_no_slash)
  then have b: "47 \<notin> set (clean_name x)" using sub by blast
  have c: "clean_name x = [] \<or> (\<not> isspace (hd (clean_name x)) \<and> \<not> isspace (last (clean_name x)))"
    unfolding clean_name_def using strip_hd strip_last by blast
  have "replace_slash (clean_name x) = clean_name x"
    using b by (rule replace_slash_id)
  moreover have "remove_disallowed (clean_name x) = clean_name x"
    using a by (rule remove_disallowed_id)
  ultimately have "clean_name (clean_name x) = strip (clean_name x)"
    by (simp add: clean_name_def[of "clean_name x"])
  also have "\<dots> = clean_name x"
    unfolding clean_name_def by (rule strip_idem)
  finally have d: "clean_name (clean_name x) = clean_name x" .
  have e: "clean_name x = strip (concat (map folded_char x))"
    by (simp add: clean_name_def remove_replace_folded)
  have f: "count_list (clean_name x) 45 = count_list x 45 + 2 * count_list x 47"
    using dash_plain
    by (simp add: clean_name_def count_strip count_remove_disallowed count_replace_slash_dash)
  have g: "\<not> isspace c \<and> c \<noteq> 45 \<and> c \<noteq> 47 \<and> c \<notin> set disallowed
       \<longrightarrow> count_list (clean_name x) c = count_list x c"
    by (simp add: clean_name_def count_strip count_remove_disallowed count_replace_slash_other)
  from a b c d e f g show ?thesis by blast
qed

theorem clean_name_safe_idempotent_witness:
  "clean_name (U '' A/B:C '') = U ''A--BC''
   \<and> set (U ''A--BC'') \<inter> set disallowed = {}
   \<and> 47 \<notin> set (U ''A--BC'')
   \<and> \<not> isspace (hd (U ''A--BC'')) \<and> \<not> isspace (last (U ''A--BC''))
   \<and> clean_name (U ''A--BC'') = U ''A--BC''
   \<and> strip (concat (map folded_char (U '' A/B:C ''))) = U ''A--BC''
   \<and> count_list (U '' A/B:C '') 45 = 0 \<and> count_list (U '' A/B:C '') 47 = 1
   \<and> count_list (U ''A--BC'') 45 = 2
   \<and> \<not> isspace 66 \<and> 66 \<notin> set disallowed
   \<and> count_list (U '' A/B:C '') 66 = 1 \<and> count_list (U ''A--BC'') 66 = 1"
proof -
  have e: "clean_name (U '' A/B:C '') = U ''A--BC''"
    by (simp add: clean_name_def strip_def remove_disallowed_def replace_slash_def
        disallowed_def isspace_def U_def)
  have ne: "U ''A--BC'' \<noteq> []" by (simp add: U_def)
  have n: "count_list (U '' A/B:C '') 45 = 0 \<and> count_list (U '' A/B:C '') 47 = 1
     \<and> count_list (U '' A/B:C '') 66 = 1"
    by (simp add: U_def)
  have s: "\<not> isspace 66 \<and> 66 \<notin> set disallowed"
    by (simp add: isspace_def disallowed_def)
  have k: "strip (concat (map folded_char (U '' A/B:C ''))) = U ''A--BC''"
    by (simp add: strip_def folded_char_def disallowed_def isspace_def U_def)
  show ?thesis
    using clean_name_safe_idempotent[of "U '' A/B:C ''" 66] ne n s unfolding e k by simp
qed

section \<open>Properties of \<^verbatim>\<open>is_file_new\<close>\<close>

text \<open>
  C2, as stated, at an entry that reports the size 0 and a path where no file exists: the
  entry has a size and nothing is at the local path, yet the answer is "not stale",
  because the first rule tests the truth value of the size and 0 is false.
\<close>

theorem is_file_new_size_zero:
  "[''size'' \<mapsto> PInt 0, ''chdate'' \<mapsto> PInt 5] ''size'' = Some (PInt 0)
   \<and> (Map.empty :: filesys) (U ''a.pdf'') = None
   \<and> is_file_new Map.empty [''size'' \<mapsto> PInt 0, ''chdate'' \<mapsto> PInt 5] (U ''a.pdf'') = Inr False"
  by (simp add: is_file_new_def getitem_def)

text \<open>
  C2, amended. For an entry whose size is \<^verbatim>\<open>None\<close> the answer is false whatever the
  local state. For an entry with an integer size \<open>s\<close> and an integer change time \<open>t\<close>
  the answer is false when \<open>s\<close> is 0; otherwise it is true when no file exists at the
  path, and for an existing file it is true exactly if \<open>t\<close> is strictly greater than
  the file's modification time in whole seconds or \<open>s\<close> differs from the file's byte
  size.
\<close>

theorem is_file_new_rules:
  "(file ''size'' = Some PNone \<longrightarrow> is_file_new fs file p = Inr False)
   \<and> (file ''size'' = Some (PInt s) \<and> file ''chdate'' = Some (PInt t) \<longrightarrow>
        is_file_new fs file p =
          Inr (s \<noteq> 0 \<and> (case fs p of None \<Rightarrow> True
                          | Some f \<Rightarrow> t > mtime f \<or> s \<noteq> int (length (fdata f)))))"
  by (auto simp: is_file_new_def getitem_def Let_def split: option.splits bool.splits)

theorem is_file_new_rules_witness:
  "is_file_new [U ''a.pdf'' \<mapsto> \<lparr>fdata = [1, 2, 3], mtime = 10\<rparr>]
       [''size'' \<mapsto> PNone, ''chdate'' \<mapsto> PInt 99] (U ''a.pdf'') = Inr False
   \<and> is_file_new [U ''a.pdf'' \<mapsto> \<lparr>fdata = [1, 2, 3], mtime = 10\<rparr>]
       [''size'' \<mapsto> PInt 3, ''chdate'' \<mapsto> PInt 10] (U ''a.pdf'') = Inr False
   \<and> is_file_new [U ''a.pdf'' \<mapsto> \<lparr>fdata = [1, 2, 3], mtime = 10\<rparr>]
       [''size'' \<mapsto> PInt 3, ''chdate'' \<mapsto> PInt 11] (U ''a.pdf'') = Inr True
   \<and> is_file_new [U ''a.pdf'' \<mapsto> \<lparr>fdata = [1, 2, 3], mtime = 10\<rparr>]
       [''size'' \<mapsto> PInt 4, ''chdate'' \<mapsto> PInt 10] (U ''a.pdf'') = Inr True
   \<and> is_file_new Map.empty [''size'' \<mapsto> PInt 4, ''chdate'' \<mapsto> PInt 10] (U ''a.pdf'') = Inr True"
proof -
  let ?fs = "[U ''a.pdf'' \<mapsto> \<lparr>fdata = [1, 2, 3], mtime = 10\<rparr>]"
  have a: "is_file_new ?fs [''size'' \<mapsto> PNone, ''chdate'' \<mapsto> PInt 99] (U ''a.pdf'') = Inr False"
    using is_file_new_rules[of "[''size'' \<mapsto> PNone, ''chdate'' \<mapsto> PInt 99]" ?fs "U ''a.pdf''"]
    by simp
  have b: "is_file_new ?fs [''size'' \<mapsto> PInt 3, ''chdate'' \<mapsto> PInt 10] (U ''a.pdf'') = Inr False"
    using is_file_new_rules[of "[''size'' \<mapsto> PInt 3, ''chdate'' \<mapsto> PInt 10]" ?fs "U ''a.pdf''" 3 10]
    by simp
  have c: "is_file_new ?fs [''size'' \<mapsto> PInt 3, ''chdate'' \<mapsto> PInt 11] (U ''a.pdf'') = Inr True"
    using is_file_new_rules[of "[''size'' \<mapsto> PInt 3, ''chdate'' \<mapsto> PInt 11]" ?fs "U ''a.pdf''" 3 11]
    by simp
  have d: "is_file_new ?fs [''size'' \<mapsto> PInt 4, ''chdate'' \<mapsto> PInt 10] (U ''a.pdf'') = Inr True"
    using is_file_new_rules[of "[''size'' \<mapsto> PInt 4, ''chdate'' \<mapsto> PInt 10]" ?fs "U ''a.pdf''" 4 10]
    by simp
  have e: "is_file_new Map.empty [''size'' \<mapsto> PInt 4, ''chdate'' \<mapsto> PInt 10] (U ''a.pdf'') = Inr True"
    using is_file_new_rules[of "[''size'' \<mapsto> PInt 4, ''chdate'' \<mapsto> PInt 10]" Map.empty "U ''a.pdf''" 4 10]
    by simp
  from a b c d e show ?thesis by blast
qed

section \<open>Properties of \<^verbatim>\<open>check_and_cleanup_form_data\<close>\<close>

lemma cleanup_files_error: "cleanup_files rt api fds = Inl e \<Longrightarrow> e = ParserError"
  by (induction fds arbitrary: e) (auto split: sum.splits)

lemma cleanup_folders_error: "cleanup_folders rt fds = Inl e \<Longrightarrow> e = ParserError"
  by (induction fds arbitrary: e) (auto split: sum.splits)

lemma cleanup_files_raise:
  "fd \<in> set fds \<Longrightarrow> isl (cleanup_file rt api fd) \<Longrightarrow> cleanup_files rt api fds = Inl ParserError"
proof (induction fds)
  case Nil
  then show ?case by simp
next
  case (Cons a fds)
  show ?case
  proof (cases "cleanup_file rt api a")
    case (Inl e)
    then show ?thesis by simp
  next
    case (Inr r)
    with Cons.prems have "fd \<in> set fds" by auto
    with Cons have "cleanup_files rt api fds = Inl ParserError" by simp
    with Inr show ?thesis by simp
  qed
qed

lemma cleanup_folders_raise:
  "fd \<in> set fds \<Longrightarrow> isl (cleanup_folder rt fd) \<Longrightarrow> cleanup_folders rt fds = Inl ParserError"
proof (induction fds)
  case Nil
  then show ?case by simp
next
  case (Cons a fds)
  show ?case
  proof (cases "cleanup_folder rt a")
    case (Inl e)
    then show ?thesis by simp
  next
    case (Inr r)
    with Cons.prems have "fd \<in> set fds" by auto
    with Cons have "cleanup_folders rt fds = Inl ParserError" by simp
    with Inr show ?thesis by simp
  qed
qed

lemma cleanup_files_skip:
  "cleanup_file rt api fd = Inr None \<Longrightarrow>
   cleanup_files rt api (xs @ fd # ys) = cleanup_files rt api (xs @ ys)"
  by (induction xs) (auto split: sum.splits option.splits)

lemma bad_id_file_raises: "bad_id fd \<Longrightarrow> isl (cleanup_file rt api fd)"
  by (auto simp: bad_id_def cleanup_file_def split: option.splits sum.splits bool.splits)

lemma bad_id_folder_raises: "bad_id fd \<Longrightarrow> isl (cleanup_folder rt fd)"
  by (auto simp: bad_id_def cleanup_folder_def split: option.splits sum.splits bool.splits)

lemma skipped_file: "skipped api fd \<Longrightarrow> cleanup_file rt api fd = Inr None"
  by (auto simp: skipped_def bad_id_def cleanup_file_def log_skip_def
      split: option.splits sum.splits bool.splits)

lemma malformed_file_raises:
  assumes "fd ''id'' \<noteq> None" "\<not> unsupported fd" "\<not> not_downloadable api fd"
    and "malformed_int rt fd ''size'' \<or> malformed_int rt fd ''chdate''"
  shows "isl (cleanup_file rt api fd)"
  using assms
  by (auto simp: cleanup_file_def new_file_data_def malformed_int_def getitem_def
      split: option.splits sum.splits bool.splits)

lemma new_file_data_cleaned:
  "new_file_data rt api fd (PStr s) = Inr d \<Longrightarrow> list_all (\<lambda>c. c \<in> set hexdigits) s \<Longrightarrow> cleaned_entry d"
  by (auto simp: new_file_data_def cleaned_entry_def Let_def split: sum.splits if_splits)

lemma cleanup_file_cleaned: "cleanup_file rt api fd = Inr (Some d) \<Longrightarrow> cleaned_entry d"
proof -
  assume a: "cleanup_file rt api fd = Inr (Some d)"
  then obtain v where v: "fd ''id'' = Some v"
    by (auto simp: cleanup_file_def log_skip_def split: option.splits)
  from a v have h: "all_hexdigits v = Inr True"
    by (auto simp: cleanup_file_def split: sum.splits bool.splits)
  then obtain s where s: "v = PStr s" "list_all (\<lambda>c. c \<in> set hexdigits) s"
    by (cases v) auto
  from a v h have "new_file_data rt api fd v = Inr d"
    by (auto simp: cleanup_file_def log_skip_def split: sum.splits if_splits option.splits)
  with s show ?thesis using new_file_data_cleaned by blast
qed

lemma cleanup_files_cleaned:
  "cleanup_files rt api fds = Inr out \<Longrightarrow> list_all cleaned_entry out"
proof (induction fds arbitrary: out)
  case Nil
  then show ?case by simp
next
  case (Cons a fds)
  then show ?case
    by (auto split: sum.splits option.splits dest: cleanup_file_cleaned)
qed

lemma check_and_cleanup_files_raise:
  "cleanup_files rt api files = Inl ParserError \<Longrightarrow>
   check_and_cleanup_form_data rt files folders api = Inl ParserError"
  by (simp add: check_and_cleanup_form_data_def)

lemma check_and_cleanup_folders_raise:
  assumes "cleanup_folders rt folders = Inl ParserError"
  shows "check_and_cleanup_form_data rt files folders api = Inl ParserError"
proof (cases "cleanup_files rt api files")
  case (Inl e)
  then have "e = ParserError" by (rule cleanup_files_error)
  with Inl show ?thesis by (simp add: check_and_cleanup_form_data_def)
next
  case (Inr out)
  with assms show ?thesis by (simp add: check_and_cleanup_form_data_def)
qed

text \<open>
  C9, as stated, at a listing whose only entry is an external link with the size
  \<^verbatim>\<open>"abc"\<close>: the size field is malformed, yet no parsing failure is raised, because
  the entry is skipped before its size is read.
\<close>

theorem cleanup_link_with_bad_size:
  "malformed_int ascii_rt sample_link ''size''
   \<and> check_and_cleanup_form_data ascii_rt [sample_link] [] True = Inr ([], [])"
  by (simp add: malformed_int_def sample_link_def ascii_rt_def ascii_int_def strip_def
      isspace_def ascii_unsigned_def ascii_digit_def U_def check_and_cleanup_form_data_def
      cleanup_file_def hexdigits_def unsupported_def log_skip_def)

text \<open>
  C9, amended. Entries are examined in listing order and each one by these rules, in
  this order. An identifier that is present and is not a string of hexadecimal digits
  raises a parsing failure for the whole listing (file and folder entries alike). A named
  file entry that has no identifier, or that has a hexadecimal identifier and is an
  external link, lacks a size, or (API variant only) is marked as not downloadable, is
  dropped without raising and without its other fields being read. A file entry that has
  an identifier and is not dropped raises a parsing failure for the whole listing when
  its size or its change time is present and is not an integer. Every file entry of a
  cleaned listing has a hexadecimal identifier, an integer size and an integer change
  time.
\<close>

theorem cleanup_rules:
  "(fd \<in> set files \<union> set folders \<and> bad_id fd \<longrightarrow>
      check_and_cleanup_form_data rt files folders api = Inl ParserError)
   \<and> (skipped api fd \<longrightarrow>
      check_and_cleanup_form_data rt (xs @ fd # ys) folders api
        = check_and_cleanup_form_data rt (xs @ ys) folders api)
   \<and> (fd \<in> set files \<and> fd ''id'' \<noteq> None \<and> \<not> unsupported fd \<and> \<not> not_downloadable api fd
        \<and> (malformed_int rt fd ''size'' \<or> malformed_int rt fd ''chdate'') \<longrightarrow>
      check_and_cleanup_form_data rt files folders api = Inl ParserError)
   \<and> (check_and_cleanup_form_data rt files folders api = Inr (files_new, folders_new) \<longrightarrow>
      list_all cleaned_entry files_new)"
proof -
  have a: "check_and_cleanup_form_data rt files folders api = Inl ParserError"
    if h: "fd \<in> set files \<union> set folders \<and> bad_id fd"
  proof (cases "fd \<in> set files")
    case True
    with h have "cleanup_files rt api files = Inl ParserError"
      using bad_id_file_raises cleanup_files_raise by blast
    then show ?thesis by (rule check_and_cleanup_files_raise)
  next
    case False
    with h have "fd \<in> set folders" by simp
    with h have "cleanup_folders rt folders = Inl ParserError"
      using bad_id_folder_raises cleanup_folders_raise by blast
    then show ?thesis by (rule check_and_cleanup_folders_raise)
  qed
  have b: "check_and_cleanup_form_data rt (xs @ fd # ys) folders api
        = check_and_cleanup_form_data rt (xs @ ys) folders api" if "skipped api fd"
  proof -
    from that have "cleanup_file rt api fd = Inr None" by (rule skipped_file)
    then have "cleanup_files rt api (xs @ fd # ys) = cleanup_files rt api (xs @ ys)"
      by (rule cleanup_files_skip)
    then show ?thesis by (simp add: check_and_cleanup_form_data_def)
  qed
  have c: "check_and_cleanup_form_data rt files folders api = Inl ParserError"
    if h: "fd \<in> set files \<and> fd ''id'' \<noteq> None \<and> \<not> unsupported fd \<and> \<not> not_downloadable api fd
        \<and> (malformed_int rt fd ''size'' \<or> malformed_int rt fd ''chdate'')"
  proof -
    from h have "isl (cleanup_file rt api fd)" using malformed_file_raises by blast
    with h have "cleanup_files rt api files = Inl ParserError"
      using cleanup_files_raise by blast
    then show ?thesis by (rule check_and_cleanup_files_raise)
  qed
  have d: "list_all cleaned_entry files_new"
    if h: "check_and_cleanup_form_data rt files folders api = Inr (files_new, folders_new)"
  proof -
    from h have "cleanup_files rt api files = Inr files_new"
      by (auto simp: check_and_cleanup_form_data_def split: sum.splits)
    then show ?thesis by (rule cleanup_files_cleaned)
  qed
  from a b c d show ?thesis by blast
qed

lemmas listing_eval = sample_file_def sample_link_def ascii_rt_def ascii_int_def strip_def
      isspace_def ascii_unsigned_def ascii_digit_def U_def check_and_cleanup_form_data_def
      cleanup_file_def hexdigits_def unsupported_def log_skip_def bad_id_def skipped_def
      not_downloadable_def malformed_int_def new_file_data_def cleaned_name_def clean_name_def
      remove_disallowed_def replace_slash_def disallowed_def getitem_def

theorem cleanup_rules_witness:
  "check_and_cleanup_form_data ascii_rt [sample_file(''id'' \<mapsto> PStr (U ''xyz''))] [] True
      = Inl ParserError
   \<and> check_and_cleanup_form_data ascii_rt ([] @ sample_link # [sample_file]) [] True
      = check_and_cleanup_form_data ascii_rt ([] @ [sample_file]) [] True
   \<and> check_and_cleanup_form_data ascii_rt [sample_file(''size'' \<mapsto> PStr (U ''abc''))] [] True
      = Inl ParserError
   \<and> check_and_cleanup_form_data ascii_rt [sample_file] [] True
      = Inr ([[''name'' \<mapsto> PStr (U ''a.pdf''), ''id'' \<mapsto> PStr (U ''1f''),
               ''size'' \<mapsto> PInt 3, ''chdate'' \<mapsto> PInt 7]], [])
   \<and> list_all cleaned_entry [[''name'' \<mapsto> PStr (U ''a.pdf''), ''id'' \<mapsto> PStr (U ''1f''),
               ''size'' \<mapsto> PInt 3, ''chdate'' \<mapsto> PInt 7]]"
proof -
  let ?bad = "sample_file(''id'' \<mapsto> PStr (U ''xyz''))"
  let ?mal = "sample_file(''size'' \<mapsto> PStr (U ''abc''))"
  let ?out = "[''name'' \<mapsto> PStr (U ''a.pdf''), ''id'' \<mapsto> PStr (U ''1f''),
               ''size'' \<mapsto> PInt 3, ''chdate'' \<mapsto> PInt 7]"
  have h1: "?bad \<in> set [?bad] \<union> set [] \<and> bad_id ?bad"
    by (simp add: listing_eval)
  have h2: "skipped True sample_link"
    by (simp add: listing_eval)
  have h3: "?mal \<in> set [?mal] \<and> ?mal ''id'' \<noteq> None \<and> \<not> unsupported ?mal
      \<and> \<not> not_downloadable True ?mal
      \<and> (malformed_int ascii_rt ?mal ''size'' \<or> malformed_int ascii_rt ?mal ''chdate'')"
    by (simp add: listing_eval)
  have h4: "check_and_cleanup_form_data ascii_rt [sample_file] [] True = Inr ([?out], [])"
    by (simp add: listing_eval)
  have c1: "check_and_cleanup_form_data ascii_rt [?bad] [] True = Inl ParserError"
    using cleanup_rules[of ?bad "[?bad]" "[]" ascii_rt True] h1 by blast
  have c2: "check_and_cleanup_form_data ascii_rt ([] @ sample_link # [sample_file]) [] True
      = check_and_cleanup_form_data ascii_rt ([] @ [sample_file]) [] True"
    using cleanup_rules[of sample_link _ _ _ True] h2 by blast
  have c3: "check_and_cleanup_form_data ascii_rt [?mal] [] True = Inl ParserError"
    using cleanup_rules[of ?mal "[?mal]" "[]" ascii_rt True] h3 by blast
  have c4: "list_all cleaned_entry [?out]"
    using cleanup_rules[of _ "[sample_file]" "[]" ascii_rt True _ _ "[?out]" "[]"] h4 by blast
  from c1 c2 c3 h4 c4 show ?thesis by blast
qed

section \<open>Properties of strategy A\<close>

lemma new_file_data_api_no_url:
  "new_file_data rt True fd v = Inr d \<Longrightarrow> d ''download_url'' = None"
  by (auto simp: new_file_data_def Let_def split: sum.splits)

lemma cleanup_file_api_no_url:
  "cleanup_file rt True fd = Inr (Some d) \<Longrightarrow> d ''download_url'' = None"
  by (auto simp: cleanup_file_def log_skip_def split: option.splits sum.splits bool.splits if_splits
      dest: new_file_data_api_no_url)

lemma cleanup_files_api_no_url:
  "cleanup_files rt True fds = Inr out \<Longrightarrow> list_all (\<lambda>d. d ''download_url'' = None) out"
proof (induction fds arbitrary: out)
  case Nil
  then show ?case by simp
next
  case (Cons a fds)
  then show ?case
    by (auto split: sum.splits option.splits dest: cleanup_file_api_no_url)
qed

lemma file_step_no_url:
  "d ''download_url'' = None \<Longrightarrow> file_step rt sess j rel d w = Raised KeyError w"
  by (simp add: file_step_def getitem_def)

lemma traversal_key_error:
  assumes "use_api j"
    and "get_files_index sess True (job_course_id j) folder_id = Inr (form_files, form_folders)"
    and "check_and_cleanup_form_data rt form_files form_folders True = Inr (files_new, folders_new)"
    and "files_new \<noteq> []"
  shows "download_recursive (Suc n) rt sess j folder_id rel w = Some (Raised KeyError w)"
proof -
  from assms(3) have "cleanup_files rt True form_files = Inr files_new"
    by (auto simp: check_and_cleanup_form_data_def split: sum.splits)
  then have a: "list_all (\<lambda>d. d ''download_url'' = None) files_new"
    by (rule cleanup_files_api_no_url)
  from assms(4) obtain d more_files where dr: "files_new = d # more_files"
    by (cases files_new) auto
  with a have "d ''download_url'' = None" by simp
  then have "file_step rt sess j rel d w = Raised KeyError w" by (rule file_step_no_url)
  then have "download_files rt sess j rel files_new w = Raised KeyError w"
    using dr by simp
  with assms show ?thesis by simp
qed

text \<open>
  C4. In the API variant no entry of a cleaned listing has the key \<^verbatim>\<open>download_url\<close>,
  and the loop over the files reads that key first: when the cleaned listing of a folder
  has at least one file entry, the traversal of that folder raises \<^verbatim>\<open>KeyError\<close>
  (nothing in \<^verbatim>\<open>download_recursive\<close> catches it) and leaves files, clock and plugin
  notifications as they were.
\<close>

theorem api_variant_key_error:
  assumes "use_api j"
    and "get_files_index sess True (job_course_id j) folder_id = Inr (form_files, form_folders)"
    and "check_and_cleanup_form_data rt form_files form_folders True = Inr (files_new, folders_new)"
  shows "list_all (\<lambda>d. d ''download_url'' = None) files_new
         \<and> (files_new \<noteq> [] \<longrightarrow>
              download_recursive (Suc n) rt sess j folder_id rel w = Some (Raised KeyError w))"
proof -
  from assms(3) have "cleanup_files rt True form_files = Inr files_new"
    by (auto simp: check_and_cleanup_form_data_def split: sum.splits)
  then have a: "list_all (\<lambda>d. d ''download_url'' = None) files_new"
    by (rule cleanup_files_api_no_url)
  have b: "download_recursive (Suc n) rt sess j folder_id rel w = Some (Raised KeyError w)"
    if "files_new \<noteq> []"
    using assms that by (rule traversal_key_error)
  from a b show ?thesis by blast
qed

text \<open>
  At the level of the run: the \<^verbatim>\<open>try\<close> statement around the file download catches
  \<^verbatim>\<open>MissingFeatureError\<close> and \<^verbatim>\<open>DownloadError\<close> only, so the \<^verbatim>\<open>KeyError\<close> of the
  first course with a file in its root folder ends the loop over the courses.
\<close>

lemma api_key_error_escapes_run:
  assumes dest: "files_destination cfg = Some dir" "dir \<noteq> []"
    and ign: "is_ignored rt cfg (course_id c) (PStr (save_as c)) = Inr False"
    and idx: "get_files_index sess True (course_id c) PNone = Inr (form_files, form_folders)"
    and cln: "check_and_cleanup_form_data rt form_files form_folders True = Inr (files_new, folders_new)"
    and ne: "files_new \<noteq> []"
  shows "courses_loop_rsync (Suc n) rt sess cfg True True t0 (c # rest) ls
           = Some (Raised KeyError (ls\<lparr>processed := processed ls @ [course_id c]\<rparr>))"
proof -
  let ?j = "\<lparr> job_course_id = course_id c, job_save_as = save_as c,
             root_folder = path_join dir (get_course_save_as rt cfg c),
             workdir = run_workdir cfg, use_api = True \<rparr>"
  let ?ls1 = "ls\<lparr>processed := processed ls @ [course_id c]\<rparr>"
  have "download_recursive (Suc n) rt sess ?j PNone [] (world ?ls1) = Some (Raised KeyError (world ?ls1))"
    using idx cln ne by (intro traversal_key_error) auto
  then have "course_download (Suc n) rt sess ?j True t0 (world ?ls1) = Some (Raised KeyError (world ?ls1))"
    by (simp add: course_download_def)
  then have "files_part_rsync (Suc n) rt sess cfg True True t0 c ?ls1 = Some (Raised KeyError ?ls1)"
    using dest by (simp add: files_part_rsync_def)
  then show ?thesis using ign by (simp add: course_step_rsync_def)
qed

text \<open>
  The fuel only bounds the depth of the traversal: a result reached with some fuel is the
  result with any larger fuel.
\<close>

lemma fuel_mono_aux:
  "(download_recursive n rt sess j folder_id rel w = Some r \<longrightarrow>
      download_recursive (Suc n) rt sess j folder_id rel w = Some r)
   \<and> (download_folders n rt sess j rel fds w = Some r \<longrightarrow>
      download_folders (Suc n) rt sess j rel fds w = Some r)"
proof (induction n arbitrary: folder_id rel w r fds)
  case 0
  have "download_folders 0 rt sess j rel fds w = Some r \<longrightarrow>
      download_folders (Suc 0) rt sess j rel fds w = Some r" for fds w r
  proof (induction fds arbitrary: w r)
    case Nil
    then show ?case by simp
  next
    case (Cons a fds)
    then show ?case
      by (auto split: option.splits pyval.splits eff.splits)
  qed
  then show ?case by simp
next
  case (Suc n)
  have rec: "download_recursive (Suc n) rt sess j folder_id rel w = Some r \<longrightarrow>
      download_recursive (Suc (Suc n)) rt sess j folder_id rel w = Some r" for folder_id rel w r
    using Suc.IH by (auto split: sum.splits prod.splits eff.splits)
  have fol: "download_folders (Suc n) rt sess j rel fds w = Some r \<longrightarrow>
      download_folders (Suc (Suc n)) rt sess j rel fds w = Some r" for fds w r
  proof (induction fds arbitrary: w r)
    case Nil
    then show ?case by simp
  next
    case (Cons a fds)
    show ?case
    proof
      assume h: "download_folders (Suc n) rt sess j rel (a # fds) w = Some r"
      show "download_folders (Suc (Suc n)) rt sess j rel (a # fds) w = Some r"
      proof (cases "a ''name''")
        case None
        with h show ?thesis by (simp del: download_recursive.simps)
      next
        case (Some v)
        show ?thesis
        proof (cases v)
          case (PStr nm)
          show ?thesis
          proof (cases "a ''id''")
            case None
            with h Some PStr show ?thesis by (simp del: download_recursive.simps)
          next
            case (Some fid)
            note fid = this
            show ?thesis
            proof (cases "download_recursive (Suc n) rt sess j fid (path_join rel nm) w")
              case None
              with h \<open>a ''name'' = Some v\<close> PStr fid show ?thesis by (simp del: download_recursive.simps)
            next
              case (Some x)
              then have x2: "download_recursive (Suc (Suc n)) rt sess j fid (path_join rel nm) w = Some x"
                using rec by blast
              show ?thesis
              proof (cases x)
                case (Done w')
                with h \<open>a ''name'' = Some v\<close> PStr fid Some
                have "download_folders (Suc n) rt sess j rel fds w' = Some r" by (simp del: download_recursive.simps)
                then have "download_folders (Suc (Suc n)) rt sess j rel fds w' = Some r"
                  using Cons.IH by blast
                with \<open>a ''name'' = Some v\<close> PStr fid x2 Done show ?thesis by (simp del: download_recursive.simps)
              next
                case (Raised e w')
                with h \<open>a ''name'' = Some v\<close> PStr fid Some have "r = Raised e w'"
                  by (simp del: download_recursive.simps)
                with \<open>a ''name'' = Some v\<close> PStr fid x2 Raised show ?thesis
                  by (simp del: download_recursive.simps)
              qed
            qed
          qed
        qed (use h Some in \<open>simp_all del: download_recursive.simps\<close>)
      qed
    qed
  qed
  from rec fol show ?case by blast
qed

lemma download_recursive_fuel:
  "download_recursive n rt sess j folder_id rel w = Some r \<Longrightarrow>
   download_recursive (n + k) rt sess j folder_id rel w = Some r"
  by (induction k) (use fuel_mono_aux in auto)

section \<open>Properties of the placement\<close>

lemma dec_no_slash: "47 \<notin> set (dec n)"
proof (induction n rule: dec.induct)
  case (1 n)
  show ?case
  proof (cases "n < 10")
    case True
    then show ?thesis by (simp add: dec.simps[of n])
  next
    case False
    with 1 have "47 \<notin> set (dec (n div 10))" by simp
    moreover have "48 + n mod 10 \<noteq> 47" by simp
    ultimately show ?thesis using False by (simp add: dec.simps[of n])
  qed
qed

lemma pad2_no_slash: "47 \<notin> set (pad2 n)"
  using dec_no_slash by (simp add: pad2_def)

lemma old_suffix_no_slash: "47 \<notin> set (old_suffix t)"
  using dec_no_slash pad2_no_slash by (simp add: old_suffix_def strftime_def U_def)

lemma old_suffix_nonempty: "old_suffix t \<noteq> []"
  by (simp add: old_suffix_def U_def)

lemma split_tail_no_slash: "47 \<notin> set (snd (path_split p))"
proof -
  have "47 \<notin> set (takeWhile (\<lambda>c. c \<noteq> 47) (rev p))"
    using set_takeWhileD by fastforce
  then show ?thesis by (simp add: path_split_def Let_def)
qed


lemma split_tail_last_component: "snd (path_split p) = last_component p"
  by (simp add: path_split_def Let_def last_component_def)

lemma takeWhile_all_then: 
  "\<forall>x\<in>set xs. P x \<Longrightarrow> ys = [] \<or> \<not> P (hd ys) \<Longrightarrow> takeWhile P (xs @ ys) = xs"
  by (cases ys) (auto simp: takeWhile_append2)

lemma last_component_join:
  assumes "47 \<notin> set b" "b \<noteq> []"
  shows "last_component (path_join a b) = b"
proof -
  from assms have hb: "hd b \<noteq> 47" by (cases b) auto
  have all: "\<forall>x\<in>set (rev b). x \<noteq> 47" using assms by auto
  show ?thesis
  proof (cases "a = [] \<or> last a = 47")
    case True
    then have j: "path_join a b = a @ b" using hb assms by (simp add: path_join_def)
    have "rev a = [] \<or> \<not> (hd (rev a) \<noteq> 47)" using True by (auto simp: hd_rev)
    with all have "takeWhile (\<lambda>c. c \<noteq> 47) (rev b @ rev a) = rev b"
      by (rule takeWhile_all_then)
    with j show ?thesis by (simp add: last_component_def)
  next
    case False
    then have j: "path_join a b = a @ [47] @ b" using hb assms by (simp add: path_join_def)
    have "takeWhile (\<lambda>c. c \<noteq> 47) (rev b @ (47 # rev a)) = rev b"
      using all by (intro takeWhile_all_then) auto
    with j show ?thesis by (simp add: last_component_def)
  qed
qed

lemma new_file_path_last_component:
  "last_component (new_file_path p t) = last_component p @ old_suffix t"
proof -
  obtain hd' tl' where s: "path_split p = (hd', tl')" by (cases "path_split p")
  have tl: "tl' = last_component p" using s split_tail_last_component[of p] by simp
  have "47 \<notin> set tl'" using s split_tail_no_slash[of p] by simp
  then have "47 \<notin> set (tl' @ old_suffix t)" using old_suffix_no_slash by simp
  moreover have "tl' @ old_suffix t \<noteq> []" using old_suffix_nonempty by simp
  ultimately have "last_component (path_join hd' (tl' @ old_suffix t)) = tl' @ old_suffix t"
    by (rule last_component_join)
  with s tl show ?thesis by (simp add: new_file_path_def)
qed

lemma new_file_path_neq: "new_file_path p t \<noteq> p"
proof
  assume "new_file_path p t = p"
  then have "last_component (new_file_path p t) = last_component p" by simp
  then show False using new_file_path_last_component[of p t] old_suffix_nonempty by simp
qed

lemma new_file_path_inj:
  "new_file_path p t1 = new_file_path p t2 \<Longrightarrow> old_suffix t1 = old_suffix t2"
proof -
  assume "new_file_path p t1 = new_file_path p t2"
  then have "last_component (new_file_path p t1) = last_component (new_file_path p t2)" by simp
  then show ?thesis by (simp add: new_file_path_last_component)
qed

lemma path_join_append:
  assumes "47 \<notin> set b" "47 \<notin> set c" "c \<noteq> []"
  shows "path_join a (b @ c) = path_join a b @ c"
proof (cases b)
  case Nil
  with assms have "hd c \<noteq> 47" by (cases c) auto
  with Nil assms show ?thesis by (simp add: path_join_def)
next
  case (Cons x xs)
  with assms have "x \<noteq> 47" by auto
  with Cons show ?thesis by (simp add: path_join_def)
qed

lemma new_file_path_plain:
  assumes "path_join (fst (path_split p)) (snd (path_split p)) = p"
  shows "new_file_path p t = p @ old_suffix t"
proof -
  obtain hd' tl' where s: "path_split p = (hd', tl')" by (cases "path_split p")
  have "47 \<notin> set tl'" using s split_tail_no_slash[of p] by simp
  then have "path_join hd' (tl' @ old_suffix t) = path_join hd' tl' @ old_suffix t"
    using old_suffix_no_slash old_suffix_nonempty by (intro path_join_append) auto
  with s assms show ?thesis by (simp add: new_file_path_def)
qed

lemma place_existing:
  assumes "fs file_path = Some old" "fs target_file = Some staged"
    and "target_file \<noteq> file_path" "target_file \<noteq> new_file_path file_path now"
  shows "place fs target_file file_path now =
           Done (fs(new_file_path file_path now \<mapsto> old,
                    file_path \<mapsto> \<lparr>fdata = fdata staged, mtime = epoch now\<rparr>))"
proof -
  let ?b = "new_file_path file_path now"
  have nb: "?b \<noteq> file_path" by (rule new_file_path_neq)
  have r: "os_rename fs file_path ?b = Inr ((fs(file_path := None))(?b \<mapsto> old))"
    using assms by (simp add: os_rename_def)
  let ?fs1 = "(fs(file_path := None))(?b \<mapsto> old)"
  have v: "?fs1 file_path = None" using nb by simp
  have t: "?fs1 target_file = Some staged" using assms by simp
  have c: "copyfile ?fs1 target_file file_path now
        = Inr (?fs1(file_path \<mapsto> \<lparr>fdata = fdata staged, mtime = epoch now\<rparr>))"
    using t assms(3) by (simp add: copyfile_def)
  have e: "?fs1(file_path \<mapsto> \<lparr>fdata = fdata staged, mtime = epoch now\<rparr>)
      = fs(?b \<mapsto> old, file_path \<mapsto> \<lparr>fdata = fdata staged, mtime = epoch now\<rparr>)"
    using nb by (auto simp: fun_eq_iff)
  show ?thesis
    unfolding place_def using assms(1) r v c e by (simp add: split_beta)
qed

lemma place_vacant:
  assumes "fs file_path = None" "fs target_file = Some staged"
    and "fst (path_split file_path) \<noteq> []" "snd (path_split file_path) \<noteq> []"
  shows "place fs target_file file_path now =
           Done (fs(file_path \<mapsto> \<lparr>fdata = fdata staged, mtime = epoch now\<rparr>))"
proof -
  from assms have "target_file \<noteq> file_path" by auto
  with assms show ?thesis by (simp add: place_def makedirs_def copyfile_def split_beta)
qed

lemma place_directory:
  assumes "fs file_path = None"
    and "fst (path_split file_path) \<noteq> []" "snd (path_split file_path) = []"
  shows "place fs target_file file_path now = Raised DownloadError fs"
  using assms by (simp add: place_def makedirs_def split_beta)


lemmas place_eval = demo_now_def demo_later_def demo_dest_def demo_t1_def demo_t2_def demo_fs_def
  new_file_path_def path_split_def path_join_def old_suffix_def strftime_def pad2_def dec.simps
  U_def Let_def

lemma demo_backup: "new_file_path demo_dest demo_now = U ''/dst/a.pdf_2026-11-03_22+05+07.old''"
  by (simp add: place_eval)

lemma demo_backup_later: "new_file_path demo_dest demo_later = U ''/dst/a.pdf_2026-11-03_22+05+08.old''"
  by (simp add: place_eval)

text \<open>
  C1, as stated, at two placements in the same second: the destination holds the bytes
  \<open>[1]\<close>, the first placement renames them aside and puts \<open>[2]\<close>, the second renames
  \<open>[2]\<close> onto the same \<^verbatim>\<open>.old\<close> sibling and puts \<open>[3]\<close>. There is one
  \<^verbatim>\<open>.old\<close> sibling, not two, and no file holds \<open>[1]\<close> any more.
\<close>

theorem place_same_second_loses_prior:
  "place demo_fs demo_t1 demo_dest demo_now
      = Done (demo_fs(U ''/dst/a.pdf_2026-11-03_22+05+07.old'' \<mapsto> \<lparr>fdata = [1], mtime = 5\<rparr>,
                      demo_dest \<mapsto> \<lparr>fdata = [2], mtime = 100\<rparr>))
   \<and> place (demo_fs(U ''/dst/a.pdf_2026-11-03_22+05+07.old'' \<mapsto> \<lparr>fdata = [1], mtime = 5\<rparr>,
                      demo_dest \<mapsto> \<lparr>fdata = [2], mtime = 100\<rparr>)) demo_t2 demo_dest demo_now
      = Done [demo_t1 \<mapsto> \<lparr>fdata = [2], mtime = 100\<rparr>,
              demo_t2 \<mapsto> \<lparr>fdata = [3], mtime = 100\<rparr>,
              U ''/dst/a.pdf_2026-11-03_22+05+07.old'' \<mapsto> \<lparr>fdata = [2], mtime = 100\<rparr>,
              demo_dest \<mapsto> \<lparr>fdata = [3], mtime = 100\<rparr>]"
proof -
  let ?b = "U ''/dst/a.pdf_2026-11-03_22+05+07.old''"
  let ?fsA = "demo_fs(?b \<mapsto> \<lparr>fdata = [1], mtime = 5\<rparr>, demo_dest \<mapsto> \<lparr>fdata = [2], mtime = 100\<rparr>)"
  have 1: "place demo_fs demo_t1 demo_dest demo_now = Done ?fsA"
    using place_existing[of demo_fs demo_dest "\<lparr>fdata = [1], mtime = 5\<rparr>" demo_t1
        "\<lparr>fdata = [2], mtime = 100\<rparr>" demo_now]
    unfolding demo_backup by (simp add: demo_fs_def demo_dest_def demo_t1_def demo_t2_def U_def demo_now_def)
  have 2: "place ?fsA demo_t2 demo_dest demo_now
      = Done (?fsA(?b \<mapsto> \<lparr>fdata = [2], mtime = 100\<rparr>, demo_dest \<mapsto> \<lparr>fdata = [3], mtime = 100\<rparr>))"
    using place_existing[of ?fsA demo_dest "\<lparr>fdata = [2], mtime = 100\<rparr>" demo_t2
        "\<lparr>fdata = [3], mtime = 100\<rparr>" demo_now]
    unfolding demo_backup by (simp add: demo_fs_def demo_dest_def demo_t1_def demo_t2_def U_def demo_now_def)
  have 3: "?fsA(?b \<mapsto> \<lparr>fdata = [2], mtime = 100\<rparr>, demo_dest \<mapsto> \<lparr>fdata = [3], mtime = 100\<rparr>)
      = [demo_t1 \<mapsto> \<lparr>fdata = [2], mtime = 100\<rparr>,
              demo_t2 \<mapsto> \<lparr>fdata = [3], mtime = 100\<rparr>,
              ?b \<mapsto> \<lparr>fdata = [2], mtime = 100\<rparr>,
              demo_dest \<mapsto> \<lparr>fdata = [3], mtime = 100\<rparr>]"
    by (auto simp: fun_eq_iff demo_fs_def demo_dest_def demo_t1_def demo_t2_def U_def)
  from 1 2 3 show ?thesis by simp
qed

text \<open>
  C1, amended. When a file exists at the destination (and the scratch file is neither
  the destination nor the backup path), the placement renames the existing file to the
  sibling computed from the split destination path and the time stamp, which differs from
  the destination and is \<^verbatim>\<open>destination + "_" + timestamp + ".old"\<close> when joining the
  split destination gives the destination back; afterwards the sibling holds the prior
  file unchanged, the destination holds exactly the staged bytes, and every other path is
  as before. A second placement whose time stamp differs from the first one's uses a
  different sibling, so that both prior versions are kept. (A file that already sits at
  the sibling path is replaced by the rename.)
\<close>

theorem place_renames_aside:
  assumes "fs file_path = Some old" and "fs target_file = Some staged"
    and "target_file \<noteq> file_path" and "target_file \<noteq> new_file_path file_path now"
  shows "place fs target_file file_path now
           = Done (fs(new_file_path file_path now \<mapsto> old,
                      file_path \<mapsto> \<lparr>fdata = fdata staged, mtime = epoch now\<rparr>))
         \<and> new_file_path file_path now \<noteq> file_path
         \<and> (path_join (fst (path_split file_path)) (snd (path_split file_path)) = file_path \<longrightarrow>
              new_file_path file_path now = file_path @ U ''_'' @ strftime now @ U ''.old'')
         \<and> (fs target2 = Some staged2 \<and> target2 \<noteq> file_path
              \<and> target2 \<noteq> new_file_path file_path now \<and> target2 \<noteq> new_file_path file_path later
              \<and> strftime now \<noteq> strftime later \<longrightarrow>
              new_file_path file_path now \<noteq> new_file_path file_path later
              \<and> place (fs(new_file_path file_path now \<mapsto> old,
                          file_path \<mapsto> \<lparr>fdata = fdata staged, mtime = epoch now\<rparr>))
                    target2 file_path later
                 = Done (fs(new_file_path file_path now \<mapsto> old,
                            new_file_path file_path later \<mapsto>
                               \<lparr>fdata = fdata staged, mtime = epoch now\<rparr>,
                            file_path \<mapsto> \<lparr>fdata = fdata staged2, mtime = epoch later\<rparr>)))"
proof -
  let ?b = "new_file_path file_path now"
  let ?c = "new_file_path file_path later"
  let ?new = "\<lparr>fdata = fdata staged, mtime = epoch now\<rparr>"
  let ?fs1 = "fs(?b \<mapsto> old, file_path \<mapsto> ?new)"
  have a: "place fs target_file file_path now = Done ?fs1"
    using assms by (rule place_existing)
  have b: "?b \<noteq> file_path" by (rule new_file_path_neq)
  have c: "?b = file_path @ U ''_'' @ strftime now @ U ''.old''"
    if "path_join (fst (path_split file_path)) (snd (path_split file_path)) = file_path"
    using new_file_path_plain[OF that, of now] by (simp add: old_suffix_def)
  have d: "?b \<noteq> ?c \<and> place ?fs1 target2 file_path later
                 = Done (fs(?b \<mapsto> old, ?c \<mapsto> ?new,
                            file_path \<mapsto> \<lparr>fdata = fdata staged2, mtime = epoch later\<rparr>))"
    if h: "fs target2 = Some staged2 \<and> target2 \<noteq> file_path
              \<and> target2 \<noteq> ?b \<and> target2 \<noteq> ?c \<and> strftime now \<noteq> strftime later"
  proof -
    from h have "old_suffix now \<noteq> old_suffix later" by (simp add: old_suffix_def)
    then have bc: "?b \<noteq> ?c" using new_file_path_inj by blast
    have cf: "?c \<noteq> file_path" by (rule new_file_path_neq)
    have "place ?fs1 target2 file_path later
        = Done (?fs1(?c \<mapsto> ?new, file_path \<mapsto> \<lparr>fdata = fdata staged2, mtime = epoch later\<rparr>))"
      using h by (intro place_existing) auto
    moreover have "?fs1(?c \<mapsto> ?new, file_path \<mapsto> \<lparr>fdata = fdata staged2, mtime = epoch later\<rparr>)
        = fs(?b \<mapsto> old, ?c \<mapsto> ?new, file_path \<mapsto> \<lparr>fdata = fdata staged2, mtime = epoch later\<rparr>)"
      using cf b bc by (auto simp: fun_eq_iff)
    ultimately show ?thesis using bc by simp
  qed
  from a b c d show ?thesis by blast
qed

theorem place_renames_aside_witness:
  "place demo_fs demo_t1 demo_dest demo_now
      = Done (demo_fs(U ''/dst/a.pdf_2026-11-03_22+05+07.old'' \<mapsto> \<lparr>fdata = [1], mtime = 5\<rparr>,
                      demo_dest \<mapsto> \<lparr>fdata = [2], mtime = 100\<rparr>))
   \<and> U ''/dst/a.pdf_2026-11-03_22+05+07.old'' \<noteq> U ''/dst/a.pdf_2026-11-03_22+05+08.old''
   \<and> place (demo_fs(U ''/dst/a.pdf_2026-11-03_22+05+07.old'' \<mapsto> \<lparr>fdata = [1], mtime = 5\<rparr>,
                      demo_dest \<mapsto> \<lparr>fdata = [2], mtime = 100\<rparr>)) demo_t2 demo_dest demo_later
      = Done (demo_fs(U ''/dst/a.pdf_2026-11-03_22+05+07.old'' \<mapsto> \<lparr>fdata = [1], mtime = 5\<rparr>,
                      U ''/dst/a.pdf_2026-11-03_22+05+08.old'' \<mapsto> \<lparr>fdata = [2], mtime = 100\<rparr>,
                      demo_dest \<mapsto> \<lparr>fdata = [3], mtime = 101\<rparr>))"
proof -
  have h1: "demo_fs demo_dest = Some \<lparr>fdata = [1], mtime = 5\<rparr>"
    and h2: "demo_fs demo_t1 = Some \<lparr>fdata = [2], mtime = 100\<rparr>"
    and h3: "demo_t1 \<noteq> demo_dest"
    and h4: "demo_t1 \<noteq> new_file_path demo_dest demo_now"
    and h5: "demo_fs demo_t2 = Some \<lparr>fdata = [3], mtime = 100\<rparr> \<and> demo_t2 \<noteq> demo_dest
              \<and> demo_t2 \<noteq> new_file_path demo_dest demo_now
              \<and> demo_t2 \<noteq> new_file_path demo_dest demo_later
              \<and> strftime demo_now \<noteq> strftime demo_later"
    unfolding demo_backup demo_backup_later
    by (simp_all add: demo_fs_def demo_dest_def demo_t1_def demo_t2_def U_def
        strftime_def pad2_def dec.simps demo_now_def demo_later_def)
  have e: "epoch demo_now = 100" "epoch demo_later = 101"
    by (simp_all add: demo_now_def demo_later_def)
  from place_renames_aside[OF h1 h2 h3 h4, of demo_t2 "\<lparr>fdata = [3], mtime = 100\<rparr>" demo_later] h5
  show ?thesis unfolding demo_backup demo_backup_later by (simp add: e)
qed

section \<open>Properties of \<^verbatim>\<open>short_course_name\<close>\<close>

lemmas name_eval = short_course_name_sync_def short_course_name_rsync_def re_match_def
  course_pattern_def name_token_def plus_def clean_name_def strip_def remove_disallowed_def
  replace_slash_def disallowed_def isspace_def U_def ascii_rt_def ascii_digit_def
  upper_az_def upper_umlaut_def lower_umlaut_def any_char_def compact_name_def group_text_def

lemma mathe_sync: "short_course_name_sync ascii_rt (U ''Mathe'') = PBool False"
  by (simp add: name_eval)

lemma mathe_rsync: "short_course_name_rsync ascii_rt (U ''Mathe'') = U ''Mathe''"
  by (simp add: name_eval)

lemma algo_rsync: "short_course_name_rsync ascii_rt (U ''12 V Algo 2'') = U ''12 V Algo 2''"
  by (simp add: name_eval)

lemma algo_sync: "short_course_name_sync ascii_rt (U ''12 V Algo 2'') = PStr (U ''12 V Algo 2'')"
  by (simp add: name_eval)

lemma logic_sync: "short_course_name_sync ascii_rt (U ''34 S Logic'') = PStr (U ''34 S Logic'')"
  by (simp add: name_eval)

lemma logic_rsync: "short_course_name_rsync ascii_rt (U ''34 S Logic'') = U ''34 S Logic''"
  by (simp add: name_eval)

text \<open>Both functions agree on a title that matches; only strategy A has a fallback.\<close>

lemma short_course_name_matching:
  "re_match (course_pattern rt) (clean_name name) = Some g \<Longrightarrow>
   short_course_name_rsync rt name = compact_name g
   \<and> short_course_name_sync rt name = PStr (compact_name g)"
  by (simp add: short_course_name_rsync_def short_course_name_sync_def)

lemma short_course_name_rsync_fallback:
  "re_match (course_pattern rt) (clean_name name) = None \<Longrightarrow>
   short_course_name_rsync rt name = clean_name name"
  by (simp add: short_course_name_rsync_def)

lemma short_course_name_example:
  "short_course_name_rsync ascii_rt (U ''101 V Introduction to Systems 2'') = U ''101 V Introduction 2''"
  by (simp add: name_eval)

text \<open>
  C5, at the title \<^verbatim>\<open>Mathe\<close>, which does not match the pattern: the function of
  \<^verbatim>\<open>studip_sync.py\<close> (strategy B) returns \<^verbatim>\<open>False\<close>, not the sanitised title; the
  function of \<^verbatim>\<open>studip_rsync.py\<close> (strategy A) returns the sanitised title.
\<close>

theorem short_course_name_sync_returns_false:
  "re_match (course_pattern ascii_rt) (clean_name (U ''Mathe'')) = None
   \<and> short_course_name_sync ascii_rt (U ''Mathe'') = PBool False
   \<and> short_course_name_rsync ascii_rt (U ''Mathe'') = clean_name (U ''Mathe'')"
  by (simp add: name_eval)

section \<open>Properties of the post-extraction cleanup\<close>

text \<open>
  C8, at the sample archive extracted to \<^verbatim>\<open>/tmp/w/extracted/12 V Algo\<close>: the
  manifest is removed and the wrapper is flattened, but
  the walk visits \<^verbatim>\<open>A\<close> while it still holds \<^verbatim>\<open>B\<close>, removes the empty \<^verbatim>\<open>B\<close>
  afterwards and never comes back to \<^verbatim>\<open>A\<close>: the cleaned tree keeps the empty
  directory \<^verbatim>\<open>A\<close>.
\<close>

theorem cleanup_leaves_empty_dir:
  "cleanup rt (U ''/tmp/w/extracted/12 V Algo'') wrapped_tree
     = Done (Some [(U ''x.txt'', TFile [1]), (U ''A'', TDir [])])
   \<and> \<not> no_empty_dirs [(U ''x.txt'', TFile [1]), (U ''A'', TDir [])]"
  by (simp add: cleanup_def wrapped_tree_def remove_filelist_def remove_intermediary_dir_def
      glob_finds_def has_magic_def path_join_def remove_empty_dirs_def hidden_def U_def)

section \<open>Properties of the runs\<close>

lemmas sample_eval = demo_session_def short_session_def zipfail_session_def quiet_session_def
  demo_config_def empty_world_def course_mathe_def course_algo_def course_logic_def
  sample_file_def demo_now_def wrapped_tree_def demo_job_def media_session_def media_config_def

lemma demo_listing_cleaned:
  "check_and_cleanup_form_data ascii_rt [sample_file(''download_url'' \<mapsto> PStr (U ''u''))] [] False
     = Inr ([[''name'' \<mapsto> PStr (U ''a.pdf''), ''id'' \<mapsto> PStr (U ''1f''),
              ''size'' \<mapsto> PInt 3, ''chdate'' \<mapsto> PInt 7, ''download_url'' \<mapsto> PStr (U ''u'')]], [])"
  by (simp add: listing_eval)

lemma demo_listing_cleaned_api:
  "check_and_cleanup_form_data ascii_rt [sample_file(''download_url'' \<mapsto> PStr (U ''u''))] [] True
     = Inr ([[''name'' \<mapsto> PStr (U ''a.pdf''), ''id'' \<mapsto> PStr (U ''1f''),
              ''size'' \<mapsto> PInt 3, ''chdate'' \<mapsto> PInt 7]], [])"
  by (simp add: listing_eval)


lemmas run_eval = sync_rsync_def sync_sync_def prologue_def
  course_step_rsync_def files_part_rsync_def media_part_rsync_def is_ignored_def configured_def
  get_course_save_as_def course_download_def file_step_def is_file_new_def getitem_def
  path_join_def place_def makedirs_def copyfile_def os_rename_def new_file_path_def path_split_def
  course_step_sync_def files_part_sync_def media_part_sync_def fetch_and_extract_def
  extractor_extract_def cleanup_def remove_filelist_def remove_intermediary_dir_def glob_finds_def has_magic_def
  remove_empty_dirs_def hidden_def store_def set_children_def Let_def

text \<open>
  What the two drivers do with a \<^verbatim>\<open>DownloadError\<close> or \<^verbatim>\<open>ExtractionError\<close> of the file
  sync: strategy B records it and goes on; strategy A records it and raises it again,
  which ends the loop over the courses.
\<close>

lemma files_part_sync_records:
  assumes "configured (files_destination cfg)"
    and "fetch_and_extract rt sess cfg sf t0 c name (staging_dirs (world ls)) = Raised e st'"
    and "e = DownloadError \<or> e = ExtractionError"
  shows "files_part_sync rt sess cfg sf t0 c name ls
           = Done (ls\<lparr>world := (world ls)\<lparr>staging_dirs := st'\<rparr>, status_code := 2\<rparr>)"
  using assms by (auto simp: files_part_sync_def)

lemma files_part_rsync_reraises:
  assumes "files_destination cfg = Some dir" "dir \<noteq> []"
    and "course_download fuel rt sess
           \<lparr> job_course_id = course_id c, job_save_as = save_as c,
             root_folder = path_join dir (get_course_save_as rt cfg c),
             workdir = run_workdir cfg, use_api = api \<rparr> sf t0 (world ls)
         = Some (Raised DownloadError w')"
  shows "files_part_rsync fuel rt sess cfg sf api t0 c ls
           = Some (Raised DownloadError (ls\<lparr>world := w', status_code := 2\<rparr>))"
  using assms by (simp add: files_part_rsync_def)

lemma course_step_rsync_escapes:
  "course_step_rsync fuel rt sess cfg sf api t0 c ls = Some (Raised e ls') \<Longrightarrow>
   courses_loop_rsync fuel rt sess cfg sf api t0 (c # rest) ls = Some (Raised e ls')"
  by simp

text \<open>
  C3, at a run of two courses in which the first download has the wrong size. Strategy A
  sets the status to 2 and raises the error again: the exception leaves \<^verbatim>\<open>sync\<close>, no
  status is returned and the second course \<^verbatim>\<open>c3\<close> is never started. Strategy B, at a
  run whose first archive download fails, records the status 2, goes on with \<^verbatim>\<open>c3\<close>
  and returns 2.
\<close>

theorem rsync_download_error_aborts_run:
  "map_option result (sync_rsync (Suc (Suc 0)) ascii_rt short_session demo_config False False False 0 empty_world)
      = Some (Inl DownloadError)
   \<and> map_option (\<lambda>r. processed (end_state r))
        (sync_rsync (Suc (Suc 0)) ascii_rt short_session demo_config False False False 0 empty_world)
      = Some [U ''c2'']
   \<and> result (sync_sync ascii_rt zipfail_session demo_config False False 0 Map.empty) = Inr 2
   \<and> processed (end_state (sync_sync ascii_rt zipfail_session demo_config False False 0 Map.empty))
      = [U ''c2'', U ''c3'']"
proof -
  have a: "sync_rsync (Suc (Suc 0)) ascii_rt short_session demo_config False False False 0 empty_world
    = Some \<lparr> result = Inl DownloadError, last_sync_after = 0,
             end_state = \<lparr> status_code = 2, processed = [U ''c2''],
               world = \<lparr> disk = [U ''/tmp/w/1f'' \<mapsto> \<lparr>fdata = [1, 2], mtime = 100\<rparr>],
                         ticks = 1, hooks = [] \<rparr> \<rparr> \<rparr>"
    by (simp add: run_eval sample_eval algo_rsync[unfolded U_def, simplified] demo_listing_cleaned[unfolded sample_file_def U_def, simplified] U_def)
  have b: "sync_sync ascii_rt zipfail_session demo_config False False 0 Map.empty
    = \<lparr> result = Inr 2, last_sync_after = 0,
        end_state = \<lparr> status_code = 2, processed = [U ''c2'', U ''c3''],
          world = \<lparr> staging_dirs = [U ''/tmp/w/extracted/34 S Logic'' \<mapsto>
                       [(U ''x.txt'', TFile [1]), (U ''A'', TDir [])]], mirrored = True \<rparr> \<rparr> \<rparr>"
    by (simp add: run_eval sample_eval algo_sync[unfolded U_def, simplified] logic_sync[unfolded U_def, simplified] U_def)
  show ?thesis by (simp add: a b)
qed

text \<open>The sample session in the API variant: its one file entry is never synced.\<close>

theorem api_variant_key_error_witness:
  "list_all (\<lambda>d. d ''download_url'' = None)
      [[''name'' \<mapsto> PStr (U ''a.pdf''), ''id'' \<mapsto> PStr (U ''1f''),
        ''size'' \<mapsto> PInt 3, ''chdate'' \<mapsto> PInt 7]]
   \<and> download_recursive (Suc 0) ascii_rt demo_session demo_job PNone [] empty_world
        = Some (Raised KeyError empty_world)"
proof -
  let ?raw = "[sample_file(''download_url'' \<mapsto> PStr (U ''u''))]"
  let ?out = "[[''name'' \<mapsto> PStr (U ''a.pdf''), ''id'' \<mapsto> PStr (U ''1f''),
        ''size'' \<mapsto> PInt 3, ''chdate'' \<mapsto> PInt 7]]"
  have h1: "use_api demo_job" by (simp add: demo_job_def)
  have h2: "get_files_index demo_session True (job_course_id demo_job) PNone = Inr (?raw, [])"
    by (simp add: demo_session_def)
  have h3: "check_and_cleanup_form_data ascii_rt ?raw [] True = Inr (?out, [])"
    by (rule demo_listing_cleaned_api)
  have ne: "?out \<noteq> []" by simp
  from api_variant_key_error[OF h1 h2 h3, of 0 "[]" empty_world] ne
  show ?thesis by blast
qed


text \<open>
  C6, as stated, at a run of strategy B with an empty ignore list, no media destination
  and no new files: the title \<^verbatim>\<open>Mathe\<close> does not match, \<^verbatim>\<open>save_as\<close> becomes
  \<^verbatim>\<open>False\<close>, and yet no type error is raised: both courses are processed and the run
  returns 0.
\<close>

theorem unmatched_course_without_error:
  "short_course_name_sync ascii_rt (save_as course_mathe) = PBool False
   \<and> result (sync_sync ascii_rt quiet_session demo_config False False 0 Map.empty) = Inr 0
   \<and> processed (end_state (sync_sync ascii_rt quiet_session demo_config False False 0 Map.empty))
      = [U ''c1'', U ''c2'']"
proof -
  have a: "short_course_name_sync ascii_rt (save_as course_mathe) = PBool False"
    using mathe_sync by (simp add: course_mathe_def)
  have b: "sync_sync ascii_rt quiet_session demo_config False False 0 Map.empty
    = \<lparr> result = Inr 0, last_sync_after = 100,
        end_state = \<lparr> status_code = 0, processed = [U ''c1'', U ''c2''],
          world = \<lparr> staging_dirs = Map.empty, mirrored = True \<rparr> \<rparr> \<rparr>"
    by (simp add: run_eval sample_eval algo_sync[unfolded U_def, simplified]
        mathe_sync[unfolded U_def, simplified] U_def)
  show ?thesis using a by (simp add: b)
qed

lemma extract_not_str:
  "extractor_extract rt basedir st (Zip content) (PBool b) = Raised TypeError st"
  by (simp add: extractor_extract_def)

text \<open>
  C6, amended. In strategy B a course whose title does not match the pattern has its
  \<^verbatim>\<open>save_as\<close> overwritten with \<^verbatim>\<open>False\<close> before the ignore list is consulted and
  before the name is used as a path segment. Such a course is skipped when its identifier
  is in the ignore list. Otherwise, when the ignore list is not empty, matching its first
  pattern raises \<^verbatim>\<open>TypeError\<close> (\<^verbatim>\<open>re.error\<close> when the pattern does not compile).
  With an empty ignore list, \<^verbatim>\<open>TypeError\<close> is raised when the archive of the course is
  fetched and is a well-formed container, and some exception is raised whenever a media
  destination is configured (\<^verbatim>\<open>TypeError\<close> when the file part ended normally); with no
  media destination and no archive fetched (no files
  destination, or no new files) the course is processed without any error. An exception
  raised by the course leaves the loop: the remaining courses are not processed.
\<close>

theorem unmatched_course_type_error:
  assumes "short_course_name_sync rt (save_as c) = PBool False"
  shows "(course_id c \<in> set (ignore_courses cfg) \<longrightarrow>
            course_step_sync rt sess cfg sync_fully t0 c ls = Done ls)
       \<and> (course_id c \<notin> set (ignore_courses cfg) \<and> ignore_courses cfg = ig # igs \<longrightarrow>
            course_step_sync rt sess cfg sync_fully t0 c ls
              = Raised (if re_compiles rt (replace_star ig) then TypeError else ReError) ls)
       \<and> (ignore_courses cfg = [] \<and> configured (files_destination cfg)
            \<and> (sync_fully \<or> check_course_new_files sess (course_id c) t0 = Inr True)
            \<and> download sess (course_id c) (sync_only c) = Inr (Zip content) \<longrightarrow>
            course_step_sync rt sess cfg sync_fully t0 c ls
              = Raised TypeError (ls\<lparr>processed := processed ls @ [course_id c]\<rparr>))
       \<and> (ignore_courses cfg = [] \<and> configured (media_destination cfg) \<longrightarrow>
            (case course_step_sync rt sess cfg sync_fully t0 c ls of
               Done ls' \<Rightarrow> False | Raised e ls' \<Rightarrow> True))
       \<and> (ignore_courses cfg = [] \<and> configured (media_destination cfg)
            \<and> files_part_sync rt sess cfg sync_fully t0 c (PBool False)
                  (ls\<lparr>processed := processed ls @ [course_id c]\<rparr>) = Done ls2 \<longrightarrow>
            course_step_sync rt sess cfg sync_fully t0 c ls = Raised TypeError ls2)
       \<and> (ignore_courses cfg = [] \<and> \<not> configured (media_destination cfg)
            \<and> (\<not> configured (files_destination cfg)
                \<or> (\<not> sync_fully \<and> check_course_new_files sess (course_id c) t0 = Inr False)) \<longrightarrow>
            course_step_sync rt sess cfg sync_fully t0 c ls
              = Done (ls\<lparr>processed := processed ls @ [course_id c]\<rparr>))
       \<and> (course_step_sync rt sess cfg sync_fully t0 c ls = Raised e ls' \<longrightarrow>
            courses_loop_sync rt sess cfg sync_fully t0 (c # rest) ls = Raised e ls')"
proof -
  let ?step = "course_step_sync rt sess cfg sync_fully t0 c ls"
  let ?ls1 = "ls\<lparr>processed := processed ls @ [course_id c]\<rparr>"
  have a: "?step = Done ls" if "course_id c \<in> set (ignore_courses cfg)"
    using that by (simp add: course_step_sync_def is_ignored_def Let_def)
  have b: "?step = Raised (if re_compiles rt (replace_star ig) then TypeError else ReError) ls"
    if "course_id c \<notin> set (ignore_courses cfg) \<and> ignore_courses cfg = ig # igs"
    using that assms by (auto simp: course_step_sync_def is_ignored_def ignore_match_def Let_def)
  have c: "?step = Raised TypeError ?ls1"
    if h: "ignore_courses cfg = [] \<and> configured (files_destination cfg)
            \<and> (sync_fully \<or> check_course_new_files sess (course_id c) t0 = Inr True)
            \<and> download sess (course_id c) (sync_only c) = Inr (Zip content)"
  proof -
    from h have "fetch_and_extract rt sess cfg sync_fully t0 c (PBool False) (staging_dirs (world ?ls1))
        = Raised TypeError (staging_dirs (world ?ls1))"
      by (auto simp: fetch_and_extract_def extract_not_str)
    then have "files_part_sync rt sess cfg sync_fully t0 c (PBool False) ?ls1 = Raised TypeError ?ls1"
      using h by (simp add: files_part_sync_def)
    then show ?thesis using h assms by (simp add: course_step_sync_def is_ignored_def Let_def)
  qed
  have d: "(case ?step of Done ls' \<Rightarrow> False | Raised e ls' \<Rightarrow> True)"
    if h: "ignore_courses cfg = [] \<and> configured (media_destination cfg)"
  proof (cases "files_part_sync rt sess cfg sync_fully t0 c (PBool False) ?ls1")
    case (Done ls2)
    then show ?thesis using h assms
      by (simp add: course_step_sync_def is_ignored_def media_part_sync_def Let_def)
  next
    case (Raised e ls2)
    then show ?thesis using h assms by (simp add: course_step_sync_def is_ignored_def Let_def)
  qed
  have d2: "?step = Raised TypeError ls2"
    if h: "ignore_courses cfg = [] \<and> configured (media_destination cfg)
            \<and> files_part_sync rt sess cfg sync_fully t0 c (PBool False) ?ls1 = Done ls2"
    using h assms
    by (simp add: course_step_sync_def is_ignored_def media_part_sync_def Let_def)
  have e: "?step = Done ?ls1"
    if h: "ignore_courses cfg = [] \<and> \<not> configured (media_destination cfg)
            \<and> (\<not> configured (files_destination cfg)
                \<or> (\<not> sync_fully \<and> check_course_new_files sess (course_id c) t0 = Inr False))"
  proof -
    have "files_part_sync rt sess cfg sync_fully t0 c (PBool False) ?ls1 = Done ?ls1"
      using h by (auto simp: files_part_sync_def fetch_and_extract_def)
    then show ?thesis using h assms
      by (simp add: course_step_sync_def is_ignored_def media_part_sync_def Let_def)
  qed
  have f: "courses_loop_sync rt sess cfg sync_fully t0 (c # rest) ls = Raised e ls'"
    if "?step = Raised e ls'"
    using that by simp
  from a b c d d2 e f show ?thesis by blast
qed


theorem unmatched_course_type_error_witness:
  "course_step_sync ascii_rt demo_session (demo_config\<lparr>ignore_courses := [U ''c1'']\<rparr>)
       False 0 course_mathe start_b = Done start_b
   \<and> course_step_sync ascii_rt demo_session (demo_config\<lparr>ignore_courses := [U ''Physik'']\<rparr>)
       False 0 course_mathe start_b = Raised TypeError start_b
   \<and> course_step_sync ascii_rt demo_session demo_config False 0 course_mathe start_b
       = Raised TypeError (start_b\<lparr>processed := [U ''c1'']\<rparr>)
   \<and> (case course_step_sync ascii_rt quiet_session media_config False 0 course_mathe start_b of
         Done ls' \<Rightarrow> False | Raised e ls' \<Rightarrow> True)
   \<and> course_step_sync ascii_rt quiet_session media_config False 0 course_mathe start_b
       = Raised TypeError (start_b\<lparr>processed := [U ''c1'']\<rparr>)
   \<and> course_step_sync ascii_rt quiet_session demo_config False 0 course_mathe start_b
       = Done (start_b\<lparr>processed := [U ''c1'']\<rparr>)
   \<and> courses_loop_sync ascii_rt demo_session demo_config False 0 [course_mathe, course_algo] start_b
       = Raised TypeError (start_b\<lparr>processed := [U ''c1'']\<rparr>)"
proof -
  have nm: "short_course_name_sync ascii_rt (save_as course_mathe) = PBool False"
    using mathe_sync by (simp add: course_mathe_def)
  note T = unmatched_course_type_error[OF nm]
  have p: "processed start_b = []" by (simp add: start_b_def)
  have 1: "course_step_sync ascii_rt demo_session (demo_config\<lparr>ignore_courses := [U ''c1'']\<rparr>)
       False 0 course_mathe start_b = Done start_b"
  proof -
    have "course_id course_mathe \<in> set (ignore_courses (demo_config\<lparr>ignore_courses := [U ''c1'']\<rparr>))"
      by (simp add: course_mathe_def)
    with T[where cfg = "demo_config\<lparr>ignore_courses := [U ''c1'']\<rparr>"] show ?thesis by blast
  qed
  have 2: "course_step_sync ascii_rt demo_session (demo_config\<lparr>ignore_courses := [U ''Physik'']\<rparr>)
       False 0 course_mathe start_b = Raised TypeError start_b"
  proof -
    let ?cfg = "demo_config\<lparr>ignore_courses := [U ''Physik'']\<rparr>"
    have h: "course_id course_mathe \<notin> set (ignore_courses ?cfg)
        \<and> ignore_courses ?cfg = U ''Physik'' # []"
      by (simp add: course_mathe_def U_def)
    have r: "re_compiles ascii_rt (replace_star (U ''Physik''))"
      by (simp add: ascii_rt_def replace_star_def U_def literal_char_def ascii_digit_def)
    from T[where cfg = ?cfg and ig = "U ''Physik''" and igs = "[]" and sess = demo_session
        and sync_fully = False and ?t0.0 = 0 and ls = start_b] h r
    show ?thesis by simp
  qed
  have 3: "course_step_sync ascii_rt demo_session demo_config False 0 course_mathe start_b
       = Raised TypeError (start_b\<lparr>processed := [U ''c1'']\<rparr>)"
  proof -
    have h: "ignore_courses demo_config = [] \<and> configured (files_destination demo_config)
            \<and> (False \<or> check_course_new_files demo_session (course_id course_mathe) 0 = Inr True)
            \<and> download demo_session (course_id course_mathe) (sync_only course_mathe)
                = Inr (Zip wrapped_tree)"
      by (simp add: demo_config_def configured_def demo_session_def U_def)
    from T[where cfg = demo_config and sess = demo_session and sync_fully = False
        and ?t0.0 = 0 and ls = start_b and content = wrapped_tree] h
    have "course_step_sync ascii_rt demo_session demo_config False 0 course_mathe start_b
       = Raised TypeError (start_b\<lparr>processed := processed start_b @ [course_id course_mathe]\<rparr>)"
      by blast
    then show ?thesis by (simp add: p course_mathe_def)
  qed
  have 4: "(case course_step_sync ascii_rt quiet_session media_config False 0 course_mathe start_b of
         Done ls' \<Rightarrow> False | Raised e ls' \<Rightarrow> True)"
  proof -
    have h: "ignore_courses media_config = [] \<and> configured (media_destination media_config)"
      by (simp add: media_config_def demo_config_def configured_def U_def)
    from T[where cfg = media_config and sess = quiet_session and sync_fully = False
        and ?t0.0 = 0 and ls = start_b] h
    show ?thesis by blast
  qed
  have m4: "course_step_sync ascii_rt quiet_session media_config False 0 course_mathe start_b
       = Raised TypeError (start_b\<lparr>processed := [U ''c1'']\<rparr>)"
  proof -
    have "files_part_sync ascii_rt quiet_session media_config False 0 course_mathe (PBool False)
            (start_b\<lparr>processed := processed start_b @ [course_id course_mathe]\<rparr>)
          = Done (start_b\<lparr>processed := [U ''c1'']\<rparr>)"
      by (simp add: files_part_sync_def fetch_and_extract_def configured_def media_config_def
          demo_config_def quiet_session_def demo_session_def course_mathe_def p U_def)
    moreover have "ignore_courses media_config = [] \<and> configured (media_destination media_config)"
      by (simp add: media_config_def demo_config_def configured_def U_def)
    ultimately show ?thesis
      using T[where cfg = media_config and sess = quiet_session and sync_fully = False
        and ?t0.0 = 0 and ls = start_b and ?ls2.0 = "start_b\<lparr>processed := [U ''c1'']\<rparr>"]
      by blast
  qed
  have 5: "course_step_sync ascii_rt quiet_session demo_config False 0 course_mathe start_b
       = Done (start_b\<lparr>processed := [U ''c1'']\<rparr>)"
  proof -
    have h: "ignore_courses demo_config = [] \<and> \<not> configured (media_destination demo_config)
            \<and> (\<not> configured (files_destination demo_config)
                \<or> (\<not> False \<and> check_course_new_files quiet_session (course_id course_mathe) 0
                      = Inr False))"
      by (simp add: demo_config_def configured_def quiet_session_def demo_session_def)
    from T[where cfg = demo_config and sess = quiet_session and sync_fully = False
        and ?t0.0 = 0 and ls = start_b] h
    have "course_step_sync ascii_rt quiet_session demo_config False 0 course_mathe start_b
       = Done (start_b\<lparr>processed := processed start_b @ [course_id course_mathe]\<rparr>)"
      by blast
    then show ?thesis by (simp add: p course_mathe_def)
  qed
  have 6: "courses_loop_sync ascii_rt demo_session demo_config False 0 [course_mathe, course_algo] start_b
       = Raised TypeError (start_b\<lparr>processed := [U ''c1'']\<rparr>)"
    using T[where cfg = demo_config and sess = demo_session and sync_fully = False
        and ?t0.0 = 0 and ls = start_b and e = TypeError
        and ls' = "start_b\<lparr>processed := [U ''c1'']\<rparr>" and rest = "[course_algo]"] 3
    by blast
  from 1 2 3 4 m4 5 6 show ?thesis by blast
qed

section \<open>Properties of the last-sync time stamp\<close>

lemma media_part_rsync_status:
  "media_part_rsync sess cfg c ls = Done ls' \<Longrightarrow> status_code ls \<noteq> 0 \<Longrightarrow> status_code ls' \<noteq> 0"
  by (auto simp: media_part_rsync_def split: if_splits option.splits)

lemma files_part_rsync_status:
  "files_part_rsync fuel rt sess cfg sf api t0 c ls = Some (Done ls') \<Longrightarrow>
   status_code ls' = status_code ls"
  by (auto simp: files_part_rsync_def Let_def split: if_splits option.splits eff.splits)

lemma course_step_rsync_status:
  assumes "course_step_rsync fuel rt sess cfg sf api t0 c ls = Some (Done ls')"
    and "status_code ls \<noteq> 0"
  shows "status_code ls' \<noteq> 0"
proof (cases "is_ignored rt cfg (course_id c) (PStr (save_as c))")
  case (Inl e)
  with assms show ?thesis by (simp add: course_step_rsync_def)
next
  case (Inr b)
  show ?thesis
  proof (cases b)
    case True
    with Inr assms show ?thesis by (simp add: course_step_rsync_def)
  next
    case False
    let ?ls1 = "ls\<lparr>processed := processed ls @ [course_id c]\<rparr>"
    from False Inr assms(1) obtain ls2 where
      f: "files_part_rsync fuel rt sess cfg sf api t0 c ?ls1 = Some (Done ls2)"
      and m: "media_part_rsync sess cfg c ls2 = Done ls'"
      by (auto simp: course_step_rsync_def split: option.splits eff.splits)
    from f have "status_code ls2 = status_code ?ls1" by (rule files_part_rsync_status)
    with assms(2) have "status_code ls2 \<noteq> 0" by simp
    with m show ?thesis by (rule media_part_rsync_status)
  qed
qed

lemma courses_loop_rsync_status:
  "courses_loop_rsync fuel rt sess cfg sf api t0 cs ls = Some (Done ls') \<Longrightarrow>
   status_code ls \<noteq> 0 \<Longrightarrow> status_code ls' \<noteq> 0"
proof (induction cs arbitrary: ls)
  case Nil
  then show ?case by simp
next
  case (Cons c cs)
  from Cons.prems(1) obtain ls1 where
    s: "course_step_rsync fuel rt sess cfg sf api t0 c ls = Some (Done ls1)"
    and r: "courses_loop_rsync fuel rt sess cfg sf api t0 cs ls1 = Some (Done ls')"
    by (auto split: option.splits eff.splits)
  from s Cons.prems(2) have "status_code ls1 \<noteq> 0" by (rule course_step_rsync_status)
  with r show ?case by (rule Cons.IH)
qed

lemma courses_loop_rsync_append:
  "courses_loop_rsync fuel rt sess cfg sf api t0 (cs1 @ cs2) ls =
     (case courses_loop_rsync fuel rt sess cfg sf api t0 cs1 ls of
        None \<Rightarrow> None
      | Some (Raised e ls') \<Rightarrow> Some (Raised e ls')
      | Some (Done ls') \<Rightarrow> courses_loop_rsync fuel rt sess cfg sf api t0 cs2 ls')"
  by (induction cs1 arbitrary: ls) (auto split: option.splits eff.splits)

lemma media_part_sync_status:
  "media_part_sync sess cfg c name ls = Done ls' \<Longrightarrow> status_code ls \<noteq> 0 \<Longrightarrow> status_code ls' \<noteq> 0"
  by (auto simp: media_part_sync_def split: if_splits option.splits pyval.splits)

lemma files_part_sync_status:
  "files_part_sync rt sess cfg sf t0 c name ls = Done ls' \<Longrightarrow> status_code ls \<noteq> 0 \<Longrightarrow>
   status_code ls' \<noteq> 0"
  by (auto simp: files_part_sync_def split: if_splits eff.splits)

lemma course_step_sync_status:
  assumes "course_step_sync rt sess cfg sf t0 c ls = Done ls'" and "status_code ls \<noteq> 0"
  shows "status_code ls' \<noteq> 0"
proof -
  let ?name = "short_course_name_sync rt (save_as c)"
  show ?thesis
  proof (cases "is_ignored rt cfg (course_id c) ?name")
    case (Inl e)
    with assms show ?thesis by (simp add: course_step_sync_def Let_def)
  next
    case (Inr b)
    show ?thesis
    proof (cases b)
      case True
      with Inr assms show ?thesis by (simp add: course_step_sync_def Let_def)
    next
      case False
      let ?ls1 = "ls\<lparr>processed := processed ls @ [course_id c]\<rparr>"
      from False Inr assms(1) obtain ls2 where
        f: "files_part_sync rt sess cfg sf t0 c ?name ?ls1 = Done ls2"
        and m: "media_part_sync sess cfg c ?name ls2 = Done ls'"
        by (auto simp: course_step_sync_def Let_def split: eff.splits)
      from assms(2) have "status_code ?ls1 \<noteq> 0" by simp
      with f have "status_code ls2 \<noteq> 0" by (rule files_part_sync_status)
      with m show ?thesis by (rule media_part_sync_status)
    qed
  qed
qed

lemma courses_loop_sync_status:
  "courses_loop_sync rt sess cfg sf t0 cs ls = Done ls' \<Longrightarrow>
   status_code ls \<noteq> 0 \<Longrightarrow> status_code ls' \<noteq> 0"
proof (induction cs arbitrary: ls)
  case Nil
  then show ?case by simp
next
  case (Cons c cs)
  from Cons.prems(1) obtain ls1 where
    s: "course_step_sync rt sess cfg sf t0 c ls = Done ls1"
    and r: "courses_loop_sync rt sess cfg sf t0 cs ls1 = Done ls'"
    by (auto split: eff.splits)
  from s Cons.prems(2) have "status_code ls1 \<noteq> 0" by (rule course_step_sync_status)
  with r show ?case by (rule Cons.IH)
qed

lemma courses_loop_sync_append:
  "courses_loop_sync rt sess cfg sf t0 (cs1 @ cs2) ls =
     (case courses_loop_sync rt sess cfg sf t0 cs1 ls of
        Raised e ls' \<Rightarrow> Raised e ls'
      | Done ls' \<Rightarrow> courses_loop_sync rt sess cfg sf t0 cs2 ls')"
  by (induction cs1 arbitrary: ls) (auto split: eff.splits)

lemma sync_rsync_gate:
  assumes "sync_rsync fuel rt sess cfg sf sr api t0 w = Some r"
  shows "last_sync_after r =
           (if configured (files_destination cfg) \<and> result r = Inr 0
            then epoch (clock sess (ticks (world (end_state r)))) else t0)"
  using assms
  by (auto simp: sync_rsync_def Let_def split: prologue_result.splits option.splits eff.splits)

lemma sync_sync_gate:
  "last_sync_after (sync_sync rt sess cfg sf sr t0 st) =
           (if configured (files_destination cfg) \<and> result (sync_sync rt sess cfg sf sr t0 st) = Inr 0
            then epoch (clock sess 0) else t0)"
  by (auto simp: sync_sync_def Let_def split: prologue_result.splits option.splits eff.splits)

lemma sync_rsync_recorded:
  assumes p: "prologue sess cfg sr = Courses (cs1 @ cs2)"
    and l: "courses_loop_rsync fuel rt sess cfg sf api t0 cs1
              \<lparr>status_code = 0, processed = [], world = w\<rparr> = Some (Done mid)"
    and s: "status_code mid \<noteq> 0"
    and r: "sync_rsync fuel rt sess cfg sf sr api t0 w = Some r"
  shows "last_sync_after r = t0 \<and> result r \<noteq> Inr 0"
proof -
  let ?start = "\<lparr>status_code = 0, processed = [], world = w\<rparr>"
  have a: "courses_loop_rsync fuel rt sess cfg sf api t0 (cs1 @ cs2) ?start
      = courses_loop_rsync fuel rt sess cfg sf api t0 cs2 mid"
    using l by (simp add: courses_loop_rsync_append)
  show ?thesis
  proof (cases "courses_loop_rsync fuel rt sess cfg sf api t0 cs2 mid")
    case None
    with a p r show ?thesis by (simp add: sync_rsync_def)
  next
    case (Some x)
    show ?thesis
    proof (cases x)
      case (Done ls)
      with Some s have "status_code ls \<noteq> 0" using courses_loop_rsync_status by blast
      with Done Some a p r show ?thesis by (auto simp: sync_rsync_def)
    next
      case (Raised e ls)
      with Some a p r show ?thesis by (auto simp: sync_rsync_def)
    qed
  qed
qed

lemma sync_sync_recorded:
  assumes p: "prologue sess cfg sr = Courses (cs1 @ cs2)"
    and l: "courses_loop_sync rt sess cfg sf t0 cs1
              \<lparr>status_code = 0, processed = [],
                world = \<lparr>staging_dirs = st, mirrored = False\<rparr>\<rparr> = Done mid"
    and s: "status_code mid \<noteq> 0"
  shows "last_sync_after (sync_sync rt sess cfg sf sr t0 st) = t0
         \<and> result (sync_sync rt sess cfg sf sr t0 st) \<noteq> Inr 0"
proof -
  let ?start = "\<lparr>status_code = 0, processed = [],
                world = \<lparr>staging_dirs = st, mirrored = False\<rparr>\<rparr>"
  have a: "courses_loop_sync rt sess cfg sf t0 (cs1 @ cs2) ?start
      = courses_loop_sync rt sess cfg sf t0 cs2 mid"
    using l by (simp add: courses_loop_sync_append)
  show ?thesis
  proof (cases "courses_loop_sync rt sess cfg sf t0 cs2 mid")
    case (Done ls)
    with s have "status_code ls \<noteq> 0" using courses_loop_sync_status by blast
    with Done a p show ?thesis by (auto simp: sync_sync_def split: option.splits)
  next
    case (Raised e ls)
    with a p show ?thesis by (auto simp: sync_sync_def)
  qed
qed

text \<open>
  C7. In both strategies the stored last-sync time stamp after a run is the current time
  when a files destination is configured and the run returns the status 0, and the time
  stamp stored before the run in every other case (status not 0, no files destination,
  or an exception that escapes). Once a failure is recorded in the aggregate status it is
  never cleared: a run in which the status is not 0 after some of the courses leaves the
  stored time stamp unchanged.
\<close>

theorem last_sync_gate:
  "(sync_rsync fuel rt sess cfg sf sr api t0 w = Some r \<longrightarrow>
      last_sync_after r =
        (if configured (files_destination cfg) \<and> result r = Inr 0
         then epoch (clock sess (ticks (world (end_state r)))) else t0))
   \<and> last_sync_after (sync_sync rt sess cfg sf sr t0 st) =
        (if configured (files_destination cfg) \<and> result (sync_sync rt sess cfg sf sr t0 st) = Inr 0
         then epoch (clock sess 0) else t0)
   \<and> (prologue sess cfg sr = Courses (cs1 @ cs2)
        \<and> courses_loop_rsync fuel rt sess cfg sf api t0 cs1
              \<lparr>status_code = 0, processed = [], world = w\<rparr> = Some (Done mid)
        \<and> status_code mid \<noteq> 0
        \<and> sync_rsync fuel rt sess cfg sf sr api t0 w = Some r \<longrightarrow>
      last_sync_after r = t0 \<and> result r \<noteq> Inr 0)
   \<and> (prologue sess cfg sr = Courses (cs1 @ cs2)
        \<and> courses_loop_sync rt sess cfg sf t0 cs1
              \<lparr>status_code = 0, processed = [],
                world = \<lparr>staging_dirs = st, mirrored = False\<rparr>\<rparr> = Done bmid
        \<and> status_code bmid \<noteq> 0 \<longrightarrow>
      last_sync_after (sync_sync rt sess cfg sf sr t0 st) = t0
      \<and> result (sync_sync rt sess cfg sf sr t0 st) \<noteq> Inr 0)"
proof (intro conjI impI)
  assume "sync_rsync fuel rt sess cfg sf sr api t0 w = Some r"
  then show "last_sync_after r =
        (if configured (files_destination cfg) \<and> result r = Inr 0
         then epoch (clock sess (ticks (world (end_state r)))) else t0)"
    by (rule sync_rsync_gate)
next
  show "last_sync_after (sync_sync rt sess cfg sf sr t0 st) =
        (if configured (files_destination cfg) \<and> result (sync_sync rt sess cfg sf sr t0 st) = Inr 0
         then epoch (clock sess 0) else t0)"
    by (rule sync_sync_gate)
next
  assume h: "prologue sess cfg sr = Courses (cs1 @ cs2)
        \<and> courses_loop_rsync fuel rt sess cfg sf api t0 cs1
              \<lparr>status_code = 0, processed = [], world = w\<rparr> = Some (Done mid)
        \<and> status_code mid \<noteq> 0
        \<and> sync_rsync fuel rt sess cfg sf sr api t0 w = Some r"
  then have "last_sync_after r = t0 \<and> result r \<noteq> Inr 0"
    using sync_rsync_recorded by blast
  then show "last_sync_after r = t0" and "result r \<noteq> Inr 0" by simp_all
next
  assume h: "prologue sess cfg sr = Courses (cs1 @ cs2)
        \<and> courses_loop_sync rt sess cfg sf t0 cs1
              \<lparr>status_code = 0, processed = [],
                world = \<lparr>staging_dirs = st, mirrored = False\<rparr>\<rparr> = Done bmid
        \<and> status_code bmid \<noteq> 0"
  then have "last_sync_after (sync_sync rt sess cfg sf sr t0 st) = t0
      \<and> result (sync_sync rt sess cfg sf sr t0 st) \<noteq> Inr 0"
    using sync_sync_recorded by blast
  then show "last_sync_after (sync_sync rt sess cfg sf sr t0 st) = t0"
    and "result (sync_sync rt sess cfg sf sr t0 st) \<noteq> Inr 0" by simp_all
qed


theorem last_sync_gate_witness:
  "(case sync_rsync (Suc (Suc 0)) ascii_rt demo_session demo_config False False False 0 empty_world of
      None \<Rightarrow> False | Some r \<Rightarrow> result r = Inr 0 \<and> last_sync_after r = 102)
   \<and> result (sync_sync ascii_rt quiet_session demo_config False False 0 Map.empty) = Inr 0
   \<and> last_sync_after (sync_sync ascii_rt quiet_session demo_config False False 0 Map.empty) = 100
   \<and> (case sync_rsync (Suc (Suc 0)) ascii_rt media_session media_config False False False 0 empty_world of
      None \<Rightarrow> False | Some r \<Rightarrow> result r \<noteq> Inr 0 \<and> last_sync_after r = 0)
   \<and> result (sync_sync ascii_rt zipfail_session demo_config False False 0 Map.empty) \<noteq> Inr 0
   \<and> last_sync_after (sync_sync ascii_rt zipfail_session demo_config False False 0 Map.empty) = 0"
proof -
  note ev = run_eval sample_eval algo_rsync[unfolded U_def, simplified]
    logic_rsync[unfolded U_def, simplified] algo_sync[unfolded U_def, simplified]
    logic_sync[unfolded U_def, simplified] mathe_sync[unfolded U_def, simplified]
    demo_listing_cleaned[unfolded sample_file_def U_def, simplified] U_def
  have cfg: "configured (files_destination demo_config)" "configured (files_destination media_config)"
    by (simp_all add: configured_def demo_config_def media_config_def U_def)
  \<comment> \<open>strategy A, clean run\<close>
  have "map_option (\<lambda>r. (result r, ticks (world (end_state r))))
          (sync_rsync (Suc (Suc 0)) ascii_rt demo_session demo_config False False False 0 empty_world)
        = Some (Inr 0, 2)"
    by (simp add: ev)
  then obtain r1 where r1: "sync_rsync (Suc (Suc 0)) ascii_rt demo_session demo_config False False
        False 0 empty_world = Some r1" "result r1 = Inr 0" "ticks (world (end_state r1)) = 2"
    by auto
  have "epoch (clock demo_session 2) = 102" by (simp add: demo_session_def demo_now_def)
  with last_sync_gate[of "Suc (Suc 0)" ascii_rt demo_session demo_config False False False 0
        empty_world r1] r1 cfg
  have a: "last_sync_after r1 = 102" by simp
  \<comment> \<open>strategy B, clean run\<close>
  have rb: "result (sync_sync ascii_rt quiet_session demo_config False False 0 Map.empty) = Inr 0"
    by (simp add: ev)
  have "epoch (clock quiet_session 0) = 100"
    by (simp add: quiet_session_def demo_session_def demo_now_def)
  with last_sync_gate[of _ ascii_rt quiet_session demo_config False False _ 0 _ _ Map.empty] rb cfg
  have b: "last_sync_after (sync_sync ascii_rt quiet_session demo_config False False 0 Map.empty) = 100"
    by simp
  \<comment> \<open>strategy A, a failure recorded after the first course\<close>
  have p3: "prologue media_session media_config False = Courses ([course_algo] @ [course_logic])"
    by (simp add: prologue_def media_session_def media_config_def demo_session_def demo_config_def)
  have "\<exists>mid. courses_loop_rsync (Suc (Suc 0)) ascii_rt media_session media_config False False 0
          [course_algo] \<lparr>status_code = 0, processed = [], world = empty_world\<rparr> = Some (Done mid)
          \<and> status_code mid = 2"
    by (simp add: ev)
  then obtain mid where mid: "courses_loop_rsync (Suc (Suc 0)) ascii_rt media_session media_config
          False False 0 [course_algo] \<lparr>status_code = 0, processed = [], world = empty_world\<rparr>
          = Some (Done mid)" "status_code mid \<noteq> 0"
    by auto
  have "\<exists>r. sync_rsync (Suc (Suc 0)) ascii_rt media_session media_config False False False 0
          empty_world = Some r"
    by (simp add: ev)
  then obtain r3 where r3: "sync_rsync (Suc (Suc 0)) ascii_rt media_session media_config False False
          False 0 empty_world = Some r3" by auto
  from last_sync_gate[of "Suc (Suc 0)" ascii_rt media_session media_config False False False 0
        empty_world r3 _ "[course_algo]" "[course_logic]" mid] p3 mid r3
  have c: "last_sync_after r3 = 0 \<and> result r3 \<noteq> Inr 0" by blast
  \<comment> \<open>strategy B, a failure recorded after the first course\<close>
  have p4: "prologue zipfail_session demo_config False = Courses ([course_algo] @ [course_logic])"
    by (simp add: prologue_def zipfail_session_def demo_session_def demo_config_def)
  have "\<exists>mid. courses_loop_sync ascii_rt zipfail_session demo_config False 0 [course_algo]
          \<lparr>status_code = 0, processed = [],
            world = \<lparr>staging_dirs = Map.empty, mirrored = False\<rparr>\<rparr> = Done mid
          \<and> status_code mid = 2"
    by (simp add: ev)
  then obtain bmid where bmid: "courses_loop_sync ascii_rt zipfail_session demo_config False 0
          [course_algo] \<lparr>status_code = 0, processed = [],
            world = \<lparr>staging_dirs = Map.empty, mirrored = False\<rparr>\<rparr> = Done bmid"
          "status_code bmid \<noteq> 0"
    by auto
  from last_sync_gate[of _ ascii_rt zipfail_session demo_config False False _ 0 _ _ Map.empty
        "[course_algo]" "[course_logic]" _ bmid] p4 bmid
  have d: "last_sync_after (sync_sync ascii_rt zipfail_session demo_config False False 0 Map.empty) = 0
      \<and> result (sync_sync ascii_rt zipfail_session demo_config False False 0 Map.empty) \<noteq> Inr 0"
    by blast
  from r1 a rb b r3 c d show ?thesis by simp
qed

end
